theory Spec2Isabelle
  imports Main "HOL-Library.Word"
begin

unbundle bit_operations_syntax

section \<open>littleline: a shallow embedding of littleline.c\<close>

text \<open>
  The editor keeps one global \<^verbatim>\<open>struct ll_context cl\<close>. Every function of
  \<^verbatim>\<open>littleline.c\<close> reads and writes it; here the context is passed in and returned.
  Bytes are \<^typ>\<open>8 word\<close>. A line is the list of the bytes stored before the terminating
  NUL of its storage; a C string read of that storage (\<^verbatim>\<open>strlen\<close>, \<^verbatim>\<open>*it\<close>) stops at
  the first NUL byte, which may come earlier than the end of the stored bytes, since the
  buffer tracks its length separately.
\<close>

type_synonym byte = "8 word"

subsection \<open>C strings\<close>

datatype fault =
    OutOfBounds int   \<comment> \<open>a read of \<^verbatim>\<open>line[i]\<close> outside the bytes of the line and its NUL\<close>
  | BufRange          \<comment> \<open>a buffer operation on a span outside the stored bytes\<close>
  | NoEntry           \<comment> \<open>\<^verbatim>\<open>ll_history_index\<close> outside \<^verbatim>\<open>0 .. size - 1\<close>\<close>
  | WindowOverflow    \<comment> \<open>a write to \<^verbatim>\<open>buf[8]\<close> of the key window in \<^verbatim>\<open>handle_character\<close>\<close>

definition strlen :: "byte list \<Rightarrow> nat" where
  "strlen bs = length (takeWhile (\<lambda>b. b \<noteq> 0) bs)"

text \<open>
  \<^verbatim>\<open>line[i]\<close>: the stored bytes, then the terminating NUL at index \<open>length\<close>. Every other
  index is outside the string: the C read is undefined there and the model reports it.
\<close>

definition char_at :: "byte list \<Rightarrow> int \<Rightarrow> fault + byte" where
  "char_at bs i =
     (if 0 \<le> i \<and> i < int (length bs) then Inr (bs ! nat i)
      else if i = int (length bs) then Inr 0
      else Inl (OutOfBounds i))"

text \<open>\<^verbatim>\<open>isalnum\<close> of the C locale: digits and ASCII letters; no byte above 0x7F.\<close>

definition isalnum :: "byte \<Rightarrow> bool" where
  "isalnum c \<longleftrightarrow> (0x30 \<le> c \<and> c \<le> 0x39) \<or> (0x41 \<le> c \<and> c \<le> 0x5A) \<or> (0x61 \<le> c \<and> c \<le> 0x7A)"

subsection \<open>The edit buffer (buffer.h)\<close>

text \<open>
  Modelled from the spec: \<^verbatim>\<open>buffer.c\<close> (\<^verbatim>\<open>struct ll_buf\<close> and the \<^verbatim>\<open>ll_buf_*\<close> functions)
  is not part of the sources. The spec describes a growable byte sequence with the length
  tracked separately and the operations assign(bytes), insert(offset, bytes),
  insert-char(offset, byte), erase(offset, count), append(bytes) and prepend(bytes), with
  no codepoint awareness. A buffer is the list of its \<^verbatim>\<open>len\<close> bytes. The spec gives no
  meaning to an offset or span outside the stored bytes; the model reports \<^const>\<open>BufRange\<close>.
\<close>

type_synonym ll_buf = "byte list"

definition ll_buf_assign :: "ll_buf \<Rightarrow> byte list \<Rightarrow> ll_buf" where
  "ll_buf_assign buf str = str"

definition ll_buf_append :: "ll_buf \<Rightarrow> byte list \<Rightarrow> ll_buf" where
  "ll_buf_append buf str = buf @ str"

definition ll_buf_prepend :: "ll_buf \<Rightarrow> byte list \<Rightarrow> ll_buf" where
  "ll_buf_prepend buf str = str @ buf"

definition ll_buf_insert :: "ll_buf \<Rightarrow> int \<Rightarrow> byte list \<Rightarrow> fault + ll_buf" where
  "ll_buf_insert buf off str =
     (if 0 \<le> off \<and> off \<le> int (length buf)
      then Inr (take (nat off) buf @ str @ drop (nat off) buf)
      else Inl BufRange)"

definition ll_buf_insert_char :: "ll_buf \<Rightarrow> int \<Rightarrow> byte \<Rightarrow> fault + ll_buf" where
  "ll_buf_insert_char buf off c = ll_buf_insert buf off [c]"

definition ll_buf_erase :: "ll_buf \<Rightarrow> int \<Rightarrow> int \<Rightarrow> fault + ll_buf" where
  "ll_buf_erase buf off n =
     (if 0 \<le> off \<and> 0 \<le> n \<and> off + n \<le> int (length buf)
      then Inr (take (nat off) buf @ drop (nat (off + n)) buf)
      else Inl BufRange)"

text \<open>
  The bytes \<^verbatim>\<open>str + off\<close> .. \<^verbatim>\<open>str + off + n - 1\<close> that a caller hands to assign, append or
  prepend as a pointer and a length.
\<close>

definition span :: "byte list \<Rightarrow> int \<Rightarrow> int \<Rightarrow> fault + byte list" where
  "span str off n =
     (if 0 \<le> off \<and> 0 \<le> n \<and> off + n \<le> int (length str)
      then Inr (take (nat n) (drop (nat off) str))
      else Inl BufRange)"

subsection \<open>The history store (history.h)\<close>

text \<open>
  Modelled from the spec: \<^verbatim>\<open>history.c\<close> is not part of the sources. The spec describes a
  bounded FIFO: pushing a line equal to the most recent entry is a no-op, otherwise the
  line is appended and the oldest entry is dropped when the capacity is exceeded;
  \<open>index(i)\<close> is random access for \<open>0 \<le> i < size\<close>.
\<close>

record ll_history =
  entries :: "byte list list"
  max_lines :: nat

definition ll_history_size :: "ll_history \<Rightarrow> int" where
  "ll_history_size h = int (length (entries h))"

definition ll_history_index :: "ll_history \<Rightarrow> int \<Rightarrow> fault + byte list" where
  "ll_history_index h i =
     (if 0 \<le> i \<and> i < ll_history_size h then Inr (entries h ! nat i) else Inl NoEntry)"

definition ll_history_push :: "ll_history \<Rightarrow> byte list \<Rightarrow> ll_history" where
  "ll_history_push h line =
     (if entries h \<noteq> [] \<and> last (entries h) = line then h
      else let es = entries h @ [line]
           in h\<lparr>entries := drop (length es - max_lines h) es\<rparr>)"

subsection \<open>The key-sequence recogniser (ll_fsm)\<close>

datatype command =
    Beginning_of_line | Backward_char | Terminate | End_of_file | End_of_line
  | Forward_char | Backward_delete_char | Accept_line | Forward_kill_line
  | Next_history | Previous_history | Backward_kill_line | Verbatim
  | Backward_kill_word | Yank | Backward_word | Forward_word | Delete_char
  | Beginning_of_history | End_of_history | Forward_kill_word

text \<open>
  Modelled from the spec: \<^verbatim>\<open>struct ll_fsm\<close>, \<^verbatim>\<open>ll_fsm_init\<close> and \<^verbatim>\<open>ll_fsm_feed\<close> are not part
  of the sources. The spec describes a trie of nodes, each with an optional command and a
  map from the next byte to a child, built from the binding list with later entries
  overriding earlier ones. \<open>feed\<close> walks one edge: a terminal node gives FINAL and resets
  to the root, a node with children gives INNER, no edge gives NONE and resets to the
  root. For a terminal node that has children the spec gives both readings (FINAL in the
  operation's description, INNER in its tie-break rule); \<open>waits\<close> records which one the
  machine follows.
\<close>

datatype trie = Node "command option" "(byte \<times> trie) list"

fun terminal :: "trie \<Rightarrow> command option" where
  "terminal (Node c kids) = c"

fun children :: "trie \<Rightarrow> (byte \<times> trie) list" where
  "children (Node c kids) = kids"

fun set_child :: "byte \<Rightarrow> trie \<Rightarrow> (byte \<times> trie) list \<Rightarrow> (byte \<times> trie) list" where
  "set_child b t [] = [(b, t)]"
| "set_child b t ((k, u) # kids) = (if k = b then (b, t) # kids else (k, u) # set_child b t kids)"

fun trie_insert :: "byte list \<Rightarrow> command \<Rightarrow> trie \<Rightarrow> trie" where
  "trie_insert [] f (Node c kids) = Node (Some f) kids"
| "trie_insert (b # bs) f (Node c kids) =
     Node c (set_child b
       (trie_insert bs f (case map_of kids b of None \<Rightarrow> Node None [] | Some t \<Rightarrow> t)) kids)"

record ll_fsm =
  root :: trie
  node :: trie
  waits :: bool

datatype fsm_result = LL_FSM_INNER_STATE | LL_FSM_FINAL_STATE command | LL_FSM_NONE

definition ll_fsm_init :: "bool \<Rightarrow> (byte list \<times> command) list \<Rightarrow> ll_fsm" where
  "ll_fsm_init w bindings =
     (let t = fold (\<lambda>(seq, f). trie_insert seq f) bindings (Node None [])
      in \<lparr>root = t, node = t, waits = w\<rparr>)"

definition ll_fsm_feed :: "ll_fsm \<Rightarrow> byte \<Rightarrow> fsm_result \<times> ll_fsm" where
  "ll_fsm_feed fsm b =
     (case map_of (children (node fsm)) b of
        None \<Rightarrow> (LL_FSM_NONE, fsm\<lparr>node := root fsm\<rparr>)
      | Some t \<Rightarrow>
          (case terminal t of
             Some f \<Rightarrow>
               if waits fsm \<and> children t \<noteq> [] then (LL_FSM_INNER_STATE, fsm\<lparr>node := t\<rparr>)
               else (LL_FSM_FINAL_STATE f, fsm\<lparr>node := root fsm\<rparr>)
           | None \<Rightarrow>
               if children t \<noteq> [] then (LL_FSM_INNER_STATE, fsm\<lparr>node := t\<rparr>)
               else (LL_FSM_NONE, fsm\<lparr>node := root fsm\<rparr>)))"

text \<open>\<^verbatim>\<open>LL_ANSI_KEY_BINDINGS\<close>, entry by entry.\<close>

definition LL_ANSI_KEY_BINDINGS :: "(byte list \<times> command) list" where
  "LL_ANSI_KEY_BINDINGS =
    [([0x01], Beginning_of_line),
     ([0x02], Backward_char),
     ([0x03], Terminate),
     ([0x04], End_of_file),
     ([0x05], End_of_line),
     ([0x06], Forward_char),
     ([0x08], Backward_delete_char),
     ([0x0A], Accept_line),
     ([0x0B], Forward_kill_line),
     ([0x0E], Next_history),
     ([0x10], Previous_history),
     ([0x15], Backward_kill_line),
     ([0x16], Verbatim),
     ([0x17], Backward_kill_word),
     ([0x19], Yank),
     ([0x1B, 0x62], Backward_word),
     ([0x1B, 0x66], Forward_word),
     ([0x1B, 0x5B, 0x41], Previous_history),
     ([0x1B, 0x5B, 0x42], Next_history),
     ([0x1B, 0x5B, 0x43], Forward_char),
     ([0x1B, 0x5B, 0x44], Backward_char),
     ([0x1B, 0x5B, 0x33, 0x7E], Delete_char),
     ([0x1B, 0x5B, 0x37, 0x7E], Beginning_of_line),
     ([0x1B, 0x5B, 0x38, 0x7E], End_of_line),
     ([0x7F], Backward_delete_char)]"

subsection \<open>The editor context\<close>

text \<open>
  \<^verbatim>\<open>cl.current\<close> is a pointer: either \<^verbatim>\<open>cl.buffer.str\<close> or the string of a history entry.
  No function of the editor writes to a history entry while \<^verbatim>\<open>current\<close> points at it, so
  a pointer to an entry is modelled by the bytes it points at. The terminal settings,
  \<^verbatim>\<open>initialized\<close> and \<^verbatim>\<open>history_file\<close> are left out: they serve the set-up of the
  terminal and the write of the history file, which are effects outside the context.
\<close>

datatype line_ptr = BufferStr | HistoryStr "byte list"

record ll_context =
  bindings :: ll_fsm
  last_command :: "command option"
  history :: ll_history
  focus :: int
  cursor :: int
  fmt_cursor :: int
  fmt_len :: int
  current :: line_ptr
  buffer :: ll_buf
  clipboard :: ll_buf

definition line :: "ll_context \<Rightarrow> byte list" where
  "line cl = (case current cl of BufferStr \<Rightarrow> buffer cl | HistoryStr bs \<Rightarrow> bs)"

subsection \<open>Helpers of the editor core\<close>

definition pop_line :: "ll_context \<Rightarrow> int \<times> ll_context" where
  "pop_line cl =
     (if current cl \<noteq> BufferStr
      then (1, cl\<lparr>buffer := ll_buf_assign (buffer cl) (take (strlen (line cl)) (line cl)),
                  current := BufferStr,
                  focus := ll_history_size (history cl)\<rparr>)
      else (0, cl))"

text \<open>
  \<^verbatim>\<open>push_line\<close>: the write of the history file, when one is configured, is an effect on
  the file system and is not modelled.
\<close>

definition push_line :: "ll_context \<Rightarrow> int \<times> ll_context" where
  "push_line cl =
     (0, cl\<lparr>history := ll_history_push (history cl) (take (strlen (line cl)) (line cl))\<rparr>)"

definition insert_str :: "ll_context \<Rightarrow> byte list \<Rightarrow> fault + (int \<times> ll_context)" where
  "insert_str cl str =
     (let cl1 = snd (pop_line cl)
      in case ll_buf_insert (buffer cl1) (cursor cl1) str of
           Inl e \<Rightarrow> Inl e
         | Inr b \<Rightarrow> Inr (0, cl1\<lparr>buffer := b, current := BufferStr,
                                cursor := cursor cl1 + int (length str)\<rparr>))"

definition insert_char :: "ll_context \<Rightarrow> byte \<Rightarrow> fault + (int \<times> ll_context)" where
  "insert_char cl c =
     (let cl1 = snd (pop_line cl)
      in case ll_buf_insert_char (buffer cl1) (cursor cl1) c of
           Inl e \<Rightarrow> Inl e
         | Inr b \<Rightarrow> Inr (0, cl1\<lparr>buffer := b, current := BufferStr, cursor := cursor cl1 + 1\<rparr>))"

subsection \<open>Cursor motion\<close>

text \<open>
  The loop \<^verbatim>\<open>do --cl.cursor; while ((cl.current[cl.cursor] & 0xC0) == 0x80);\<close> from the
  cursor \<open>c\<close>. It has no lower bound of its own: it stops at the first byte that is not a
  continuation byte.
\<close>

function backward_char_loop :: "byte list \<Rightarrow> int \<Rightarrow> fault + int" where
  "backward_char_loop ln c =
     (case char_at ln (c - 1) of
        Inl e \<Rightarrow> Inl e
      | Inr b \<Rightarrow> if b AND 0xC0 = 0x80 then backward_char_loop ln (c - 1) else Inr (c - 1))"
  by pat_completeness auto
termination
  by (relation "measure (\<lambda>(ln, c). nat c)") (auto simp: char_at_def split: if_splits)

declare backward_char_loop.simps [simp del]

definition ll_backward_char :: "ll_context \<Rightarrow> fault + (int \<times> ll_context)" where
  "ll_backward_char cl =
     (if cursor cl = 0 then Inr (- 1, cl)
      else case backward_char_loop (line cl) (cursor cl) of
             Inl e \<Rightarrow> Inl e
           | Inr c \<Rightarrow> Inr (0, cl\<lparr>cursor := c\<rparr>))"

function forward_char_loop :: "byte list \<Rightarrow> int \<Rightarrow> fault + int" where
  "forward_char_loop ln c =
     (case char_at ln (c + 1) of
        Inl e \<Rightarrow> Inl e
      | Inr b \<Rightarrow> if b AND 0xC0 = 0x80 then forward_char_loop ln (c + 1) else Inr (c + 1))"
  by pat_completeness auto
termination
  by (relation "measure (\<lambda>(ln, c). nat (int (length ln) - c))")
     (auto simp: char_at_def split: if_splits)

declare forward_char_loop.simps [simp del]

definition ll_forward_char :: "ll_context \<Rightarrow> fault + (int \<times> ll_context)" where
  "ll_forward_char cl =
     (case char_at (line cl) (cursor cl) of
        Inl e \<Rightarrow> Inl e
      | Inr b \<Rightarrow>
          if b = 0 then Inr (- 1, cl)
          else (case forward_char_loop (line cl) (cursor cl) of
                  Inl e \<Rightarrow> Inl e
                | Inr c \<Rightarrow> Inr (0, cl\<lparr>cursor := c\<rparr>)))"

text \<open>\<^verbatim>\<open>while (cl.cursor >= 0 && p(cl.current[cl.cursor])) --cl.cursor;\<close>\<close>

function skip_backward :: "(byte \<Rightarrow> bool) \<Rightarrow> byte list \<Rightarrow> int \<Rightarrow> fault + int" where
  "skip_backward p ln c =
     (if 0 \<le> c
      then case char_at ln c of
             Inl e \<Rightarrow> Inl e
           | Inr b \<Rightarrow> if p b then skip_backward p ln (c - 1) else Inr c
      else Inr c)"
  by pat_completeness auto
termination
  by (relation "measure (\<lambda>(p, ln, c). nat (c + 1))") auto

declare skip_backward.simps [simp del]

definition ll_backward_word :: "ll_context \<Rightarrow> fault + (int \<times> ll_context)" where
  "ll_backward_word cl =
     (if cursor cl = 0 then Inr (- 1, cl)
      else case skip_backward (\<lambda>b. \<not> isalnum b) (line cl) (cursor cl - 1) of
             Inl e \<Rightarrow> Inl e
           | Inr c1 \<Rightarrow>
               (case skip_backward isalnum (line cl) c1 of
                  Inl e \<Rightarrow> Inl e
                | Inr c2 \<Rightarrow> Inr (0, cl\<lparr>cursor := c2 + 1\<rparr>)))"

text \<open>\<^verbatim>\<open>while (cl.current[cl.cursor] != 0 && p(cl.current[cl.cursor])) ++cl.cursor;\<close>\<close>

function skip_forward :: "(byte \<Rightarrow> bool) \<Rightarrow> byte list \<Rightarrow> int \<Rightarrow> fault + int" where
  "skip_forward p ln c =
     (case char_at ln c of
        Inl e \<Rightarrow> Inl e
      | Inr b \<Rightarrow> if b \<noteq> 0 \<and> p b then skip_forward p ln (c + 1) else Inr c)"
  by pat_completeness auto
termination
  by (relation "measure (\<lambda>(p, ln, c). nat (int (length ln) - c))")
     (auto simp: char_at_def split: if_splits)

declare skip_forward.simps [simp del]

definition ll_forward_word :: "ll_context \<Rightarrow> fault + (int \<times> ll_context)" where
  "ll_forward_word cl =
     (case char_at (line cl) (cursor cl + 1) of
        Inl e \<Rightarrow> Inl e
      | Inr b \<Rightarrow>
          if b = 0 then Inr (- 1, cl)
          else (case skip_forward (\<lambda>b. \<not> isalnum b) (line cl) (cursor cl) of
                  Inl e \<Rightarrow> Inl e
                | Inr c1 \<Rightarrow>
                    (case skip_forward isalnum (line cl) c1 of
                       Inl e \<Rightarrow> Inl e
                     | Inr c2 \<Rightarrow>
                         (case skip_forward (\<lambda>b. \<not> isalnum b) (line cl) c2 of
                            Inl e \<Rightarrow> Inl e
                          | Inr c3 \<Rightarrow> Inr (0, cl\<lparr>cursor := c3\<rparr>)))))"

definition ll_beginning_of_line :: "ll_context \<Rightarrow> fault + (int \<times> ll_context)" where
  "ll_beginning_of_line cl = Inr (0, cl\<lparr>cursor := 0\<rparr>)"

definition ll_end_of_line :: "ll_context \<Rightarrow> fault + (int \<times> ll_context)" where
  "ll_end_of_line cl = Inr (0, cl\<lparr>cursor := int (strlen (line cl))\<rparr>)"

subsection \<open>History navigation\<close>

definition ll_previous_history :: "ll_context \<Rightarrow> fault + (int \<times> ll_context)" where
  "ll_previous_history cl =
     (if focus cl = 0 then Inr (- 1, cl)
      else case ll_history_index (history cl) (focus cl - 1) of
             Inl e \<Rightarrow> Inl e
           | Inr bs \<Rightarrow> Inr (0, cl\<lparr>focus := focus cl - 1, current := HistoryStr bs,
                                  cursor := int (strlen bs)\<rparr>))"

definition ll_next_history :: "ll_context \<Rightarrow> fault + (int \<times> ll_context)" where
  "ll_next_history cl =
     (if focus cl = ll_history_size (history cl) then Inr (- 1, cl)
      else if focus cl + 1 = ll_history_size (history cl)
      then Inr (0, cl\<lparr>focus := focus cl + 1, current := BufferStr,
                      cursor := int (strlen (buffer cl))\<rparr>)
      else case ll_history_index (history cl) (focus cl + 1) of
             Inl e \<Rightarrow> Inl e
           | Inr bs \<Rightarrow> Inr (0, cl\<lparr>focus := focus cl + 1, current := HistoryStr bs,
                                  cursor := int (strlen bs)\<rparr>))"

definition ll_beginning_of_history :: "ll_context \<Rightarrow> fault + (int \<times> ll_context)" where
  "ll_beginning_of_history cl =
     (case ll_history_index (history cl) 0 of
        Inl e \<Rightarrow> Inl e
      | Inr bs \<Rightarrow> Inr (0, cl\<lparr>focus := 0, current := HistoryStr bs, cursor := int (strlen bs)\<rparr>))"

definition ll_end_of_history :: "ll_context \<Rightarrow> fault + (int \<times> ll_context)" where
  "ll_end_of_history cl =
     Inr (0, cl\<lparr>focus := ll_history_size (history cl), current := BufferStr,
                cursor := int (strlen (buffer cl))\<rparr>)"

subsection \<open>Editing commands\<close>

definition ll_delete_char :: "ll_context \<Rightarrow> fault + (int \<times> ll_context)" where
  "ll_delete_char cl =
     (case char_at (line cl) (cursor cl) of
        Inl e \<Rightarrow> Inl e
      | Inr c0 \<Rightarrow>
          if c0 = 0 then Inr (- 1, cl)
          else (let cl1 = snd (pop_line cl)
                in case char_at (line cl1) (cursor cl1) of
                     Inl e \<Rightarrow> Inl e
                   | Inr c \<Rightarrow>
                       (case (if c AND 0x80 = 0 then ll_buf_erase (buffer cl1) (cursor cl1) 1
                              else if c AND 0xE0 = 0xC0 then ll_buf_erase (buffer cl1) (cursor cl1) 2
                              else if c AND 0xF0 = 0xE0 then ll_buf_erase (buffer cl1) (cursor cl1) 3
                              else if c AND 0xF8 = 0xF0 then ll_buf_erase (buffer cl1) (cursor cl1) 4
                              else if c AND 0xFC = 0xF8 then ll_buf_erase (buffer cl1) (cursor cl1) 5
                              else Inr (buffer cl1)) of
                          Inl e \<Rightarrow> Inl e
                        | Inr b \<Rightarrow> Inr (0, cl1\<lparr>buffer := b, current := BufferStr\<rparr>))))"

definition ll_backward_delete_char :: "ll_context \<Rightarrow> fault + (int \<times> ll_context)" where
  "ll_backward_delete_char cl =
     (case ll_backward_char cl of
        Inl e \<Rightarrow> Inl e
      | Inr (r1, cl1) \<Rightarrow>
          if r1 \<noteq> 0 then Inr (- 1, cl1)
          else (case ll_delete_char cl1 of
                  Inl e \<Rightarrow> Inl e
                | Inr (r2, cl2) \<Rightarrow> if r2 \<noteq> 0 then Inr (- 1, cl2) else Inr (0, cl2)))"

definition ll_forward_kill_line :: "ll_context \<Rightarrow> fault + (int \<times> ll_context)" where
  "ll_forward_kill_line cl =
     (case char_at (line cl) (cursor cl) of
        Inl e \<Rightarrow> Inl e
      | Inr c0 \<Rightarrow>
          if c0 = 0 then Inr (0, cl)
          else (let cl1 = snd (pop_line cl);
                    len = int (length (buffer cl1)) - cursor cl1
                in case span (buffer cl1) (cursor cl1) len of
                     Inl e \<Rightarrow> Inl e
                   | Inr killed \<Rightarrow>
                       (let clip = (if last_command cl1 = Some Forward_kill_word
                                    then ll_buf_append (clipboard cl1) killed
                                    else ll_buf_assign (clipboard cl1) killed)
                        in case ll_buf_erase (buffer cl1) (cursor cl1) len of
                             Inl e \<Rightarrow> Inl e
                           | Inr b \<Rightarrow>
                               Inr (0, cl1\<lparr>clipboard := clip, buffer := b, current := BufferStr\<rparr>))))"

definition ll_backward_kill_line :: "ll_context \<Rightarrow> fault + (int \<times> ll_context)" where
  "ll_backward_kill_line cl =
     (if cursor cl = 0 then Inr (0, cl)
      else (let cl1 = snd (pop_line cl)
            in case span (buffer cl1) 0 (cursor cl1) of
                 Inl e \<Rightarrow> Inl e
               | Inr killed \<Rightarrow>
                   (let clip = (if last_command cl1 = Some Backward_kill_word
                                then ll_buf_prepend (clipboard cl1) killed
                                else ll_buf_assign (clipboard cl1) killed)
                    in case ll_buf_erase (buffer cl1) 0 (cursor cl1) of
                         Inl e \<Rightarrow> Inl e
                       | Inr b \<Rightarrow>
                           Inr (0, cl1\<lparr>clipboard := clip, buffer := b, current := BufferStr,
                                      cursor := 0\<rparr>))))"

text \<open>The return value of \<^verbatim>\<open>ll_forward_word()\<close> is dropped; only its cursor is used.\<close>

definition ll_forward_kill_word :: "ll_context \<Rightarrow> fault + (int \<times> ll_context)" where
  "ll_forward_kill_word cl =
     (case char_at (line cl) (cursor cl) of
        Inl e \<Rightarrow> Inl e
      | Inr c0 \<Rightarrow>
          if c0 = 0 then Inr (0, cl)
          else (let cl1 = snd (pop_line cl);
                    begin = cursor cl1
                in case ll_forward_word cl1 of
                     Inl e \<Rightarrow> Inl e
                   | Inr (r, cl2) \<Rightarrow>
                       (let len = cursor cl2 - begin
                        in case span (buffer cl2) begin len of
                             Inl e \<Rightarrow> Inl e
                           | Inr killed \<Rightarrow>
                               (let clip = (if last_command cl2 = Some Forward_kill_word
                                            then ll_buf_append (clipboard cl2) killed
                                            else ll_buf_assign (clipboard cl2) killed)
                                in case ll_buf_erase (buffer cl2) begin len of
                                     Inl e \<Rightarrow> Inl e
                                   | Inr b \<Rightarrow>
                                       Inr (0, cl2\<lparr>clipboard := clip, buffer := b,
                                                  current := BufferStr, cursor := begin\<rparr>)))))"

definition ll_backward_kill_word :: "ll_context \<Rightarrow> fault + (int \<times> ll_context)" where
  "ll_backward_kill_word cl =
     (if cursor cl = 0 then Inr (0, cl)
      else (let cl1 = snd (pop_line cl);
                end = cursor cl1
            in case ll_backward_word cl1 of
                 Inl e \<Rightarrow> Inl e
               | Inr (r, cl2) \<Rightarrow>
                   (let len = end - cursor cl2
                    in case span (buffer cl2) (cursor cl2) len of
                         Inl e \<Rightarrow> Inl e
                       | Inr killed \<Rightarrow>
                           (let clip = (if last_command cl2 = Some Backward_kill_word
                                        then ll_buf_prepend (clipboard cl2) killed
                                        else ll_buf_assign (clipboard cl2) killed)
                            in case ll_buf_erase (buffer cl2) (cursor cl2) len of
                                 Inl e \<Rightarrow> Inl e
                               | Inr b \<Rightarrow>
                                   Inr (0, cl2\<lparr>clipboard := clip, buffer := b,
                                              current := BufferStr\<rparr>)))))"

definition ll_yank :: "ll_context \<Rightarrow> fault + (int \<times> ll_context)" where
  "ll_yank cl =
     (if length (clipboard cl) \<noteq> 0
      then (case insert_str cl (clipboard cl) of
              Inl e \<Rightarrow> Inl e
            | Inr (r, cl1) \<Rightarrow> Inr (0, cl1))
      else Inr (0, cl))"

definition ll_accept_line :: "ll_context \<Rightarrow> fault + (int \<times> ll_context)" where
  "ll_accept_line cl = Inr (1, snd (push_line (snd (pop_line cl))))"

subsection \<open>The renderer\<close>

text \<open>
  \<^verbatim>\<open>it\<close> is a \<^verbatim>\<open>const char *\<close>, and C leaves open whether plain \<^verbatim>\<open>char\<close> is signed. The
  value of \<^verbatim>\<open>*it\<close> after promotion to \<^verbatim>\<open>int\<close> is \<^term>\<open>sint c\<close> where it is (x86 and
  x86-64 under the System V and Windows ABIs) and \<^term>\<open>uint c\<close> where it is not (ARM
  Linux); \<open>sg\<close> says which. The comparisons of the loop use the \<^verbatim>\<open>unsigned char c\<close> and do
  not depend on it; the two digits of the escape are computed from \<^verbatim>\<open>*it\<close> itself, with
  \<^verbatim>\<open>>>\<close> on a negative \<^verbatim>\<open>int\<close> taken as the arithmetic shift every such compiler uses.
\<close>

definition char_value :: "bool \<Rightarrow> byte \<Rightarrow> int" where
  "char_value sg c = (if sg then sint c else uint c)"

text \<open>
  One pass of the loop body of \<^verbatim>\<open>reprint_line\<close> from \<^verbatim>\<open>c = *it\<close> on, at offset \<open>it\<close> of the
  line: the bytes written, the columns added to \<^verbatim>\<open>fmt_len\<close> and the bytes consumed, or
  \<^verbatim>\<open>break\<close> on a sequence cut short by the end of the string.
\<close>

datatype glyph = Glyph "byte list" int nat | Break

definition reprint_char :: "bool \<Rightarrow> byte list \<Rightarrow> nat \<Rightarrow> glyph" where
  "reprint_char sg ln it =
     (let c = ln ! it;
          left = int (strlen ln) - int it
      in if c < 32 then Glyph [0x5E, c + 64] 2 1
         else if c AND 0x80 = 0 then Glyph [c] 1 1
         else if c AND 0xE0 = 0xC0 then
           (if left < 2 then Break else Glyph (take 2 (drop it ln)) 1 2)
         else if c AND 0xF0 = 0xE0 then
           (if left < 3 then Break else Glyph (take 3 (drop it ln)) 1 3)
         else if c AND 0xF8 = 0xF0 then
           (if left < 4 then Break else Glyph (take 4 (drop it ln)) 1 4)
         else if c AND 0xFC = 0xF8 then
           (if left < 5 then Break else Glyph (take 5 (drop it ln)) 1 5)
         else Glyph [0x5C, 0x78,
                     word_of_int (0x30 + drop_bit 4 (char_value sg c)),
                     word_of_int (0x30 + (char_value sg c AND 0xF))] 4 1)"

lemma reprint_char_advances: "reprint_char sg ln it = Glyph bs cols n \<Longrightarrow> 0 < n"
  by (simp add: reprint_char_def Let_def split: if_splits)

text \<open>
  The loop \<^verbatim>\<open>for (it = cl.current; *it;)\<close> from offset \<open>it\<close>, with \<^verbatim>\<open>cl.fmt_cursor\<close> and
  \<^verbatim>\<open>cl.fmt_len\<close> as they stand; it returns both and the bytes written.
\<close>

function reprint_loop ::
  "bool \<Rightarrow> byte list \<Rightarrow> int \<Rightarrow> nat \<Rightarrow> int \<Rightarrow> int \<Rightarrow> int \<times> int \<times> byte list" where
  "reprint_loop sg ln cur it fc fl =
     (if it < length ln \<and> ln ! it \<noteq> 0
      then (let fc1 = (if int it = cur then fl else fc)
            in case reprint_char sg ln it of
                 Break \<Rightarrow> (fc1, fl, [])
               | Glyph bs cols n \<Rightarrow>
                   (case reprint_loop sg ln cur (it + n) fc1 (fl + cols) of
                      (fc2, fl2, out) \<Rightarrow> (fc2, fl2, bs @ out)))
      else (fc, fl, []))"
  by pat_completeness auto
termination
  by (relation "measure (\<lambda>(sg, ln, cur, it, fc, fl). length ln - it)")
     (auto dest: reprint_char_advances)

declare reprint_loop.simps [simp del]

text \<open>\<^verbatim>\<open>old_fmt_len\<close> is a \<^verbatim>\<open>size_t\<close> (64 bits), and \<^verbatim>\<open>i < old_fmt_len\<close> compares as \<^verbatim>\<open>size_t\<close>.\<close>

definition size_t :: "int \<Rightarrow> int" where
  "size_t x = x mod 2 ^ 64"

definition reprint_line :: "bool \<Rightarrow> ll_context \<Rightarrow> ll_context \<times> byte list" where
  "reprint_line sg cl =
     (let old_fmt_len = size_t (fmt_len cl);
          home = replicate (nat (fmt_cursor cl)) (0x08 :: byte)
      in case reprint_loop sg (line cl) (cursor cl) 0 (- 1) 0 of
           (fc, fl, out) \<Rightarrow>
             (let fc1 = (if fc < 0 then fl else fc);
                  blanks = (if size_t fl < old_fmt_len then nat (old_fmt_len - size_t fl) else 0);
                  i = fl + int blanks
              in (cl\<lparr>fmt_cursor := fc1, fmt_len := fl\<rparr>,
                  home @ out @ replicate blanks 0x20 @ replicate (nat (i - fc1)) 0x08)))"

subsection \<open>Commands and the key dispatcher\<close>

text \<open>
  What a call does to the process: it returns a value with the context, the keys not yet
  read and the bytes written to the terminal; or it ends the process (\<^verbatim>\<open>exit\<close>) after
  writing some bytes; or it waits in \<^verbatim>\<open>keyboard_get\<close> for a key that never comes; or it
  reaches an undefined operation. \<^verbatim>\<open>putchar(7)\<close> goes through the buffer of \<^verbatim>\<open>stdout\<close>
  where the renderer calls \<^verbatim>\<open>write\<close>; both are listed here in program order.
\<close>

datatype outcome =
    Return int ll_context "byte list" "byte list"
  | Exit "byte list"
  | Blocked
  | Fault fault

definition returns :: "fault + (int \<times> ll_context) \<Rightarrow> byte list \<Rightarrow> outcome" where
  "returns r keys = (case r of Inl e \<Rightarrow> Fault e | Inr (v, cl) \<Rightarrow> Return v cl keys [])"

definition ll_terminate :: "ll_context \<Rightarrow> outcome" where
  "ll_terminate cl = Exit [0x0A]"

definition ll_end_of_file :: "ll_context \<Rightarrow> byte list \<Rightarrow> outcome" where
  "ll_end_of_file cl keys =
     (if strlen (line cl) = 0 then ll_terminate cl else returns (ll_delete_char cl) keys)"

definition ll_verbatim :: "bool \<Rightarrow> ll_context \<Rightarrow> byte list \<Rightarrow> outcome" where
  "ll_verbatim sg cl keys =
     (case reprint_line sg cl of
        (cl1, out) \<Rightarrow>
          (case keys of
             [] \<Rightarrow> Blocked
           | k # ks \<Rightarrow>
               (case insert_char cl1 k of
                  Inl e \<Rightarrow> Fault e
                | Inr (r, cl2) \<Rightarrow> Return 0 cl2 ks out)))"

text \<open>\<^verbatim>\<open>func()\<close>: the call through the function pointer that the recogniser returned.\<close>

fun run_command :: "bool \<Rightarrow> command \<Rightarrow> ll_context \<Rightarrow> byte list \<Rightarrow> outcome" where
  "run_command sg Beginning_of_line cl keys = returns (ll_beginning_of_line cl) keys"
| "run_command sg Backward_char cl keys = returns (ll_backward_char cl) keys"
| "run_command sg Terminate cl keys = ll_terminate cl"
| "run_command sg End_of_file cl keys = ll_end_of_file cl keys"
| "run_command sg End_of_line cl keys = returns (ll_end_of_line cl) keys"
| "run_command sg Forward_char cl keys = returns (ll_forward_char cl) keys"
| "run_command sg Backward_delete_char cl keys = returns (ll_backward_delete_char cl) keys"
| "run_command sg Accept_line cl keys = returns (ll_accept_line cl) keys"
| "run_command sg Forward_kill_line cl keys = returns (ll_forward_kill_line cl) keys"
| "run_command sg Next_history cl keys = returns (ll_next_history cl) keys"
| "run_command sg Previous_history cl keys = returns (ll_previous_history cl) keys"
| "run_command sg Backward_kill_line cl keys = returns (ll_backward_kill_line cl) keys"
| "run_command sg Verbatim cl keys = ll_verbatim sg cl keys"
| "run_command sg Backward_kill_word cl keys = returns (ll_backward_kill_word cl) keys"
| "run_command sg Yank cl keys = returns (ll_yank cl) keys"
| "run_command sg Backward_word cl keys = returns (ll_backward_word cl) keys"
| "run_command sg Forward_word cl keys = returns (ll_forward_word cl) keys"
| "run_command sg Delete_char cl keys = returns (ll_delete_char cl) keys"
| "run_command sg Beginning_of_history cl keys = returns (ll_beginning_of_history cl) keys"
| "run_command sg End_of_history cl keys = returns (ll_end_of_history cl) keys"
| "run_command sg Forward_kill_word cl keys = returns (ll_forward_kill_word cl) keys"

text \<open>
  The accumulation loop of \<^verbatim>\<open>handle_character\<close>: \<open>buf\<close> holds the \<^verbatim>\<open>len\<close> bytes stored so
  far in \<^verbatim>\<open>char buf[8]\<close>. The next key is read first and then stored at \<^verbatim>\<open>buf[len]\<close>; a
  store at index 8 is outside the array.
\<close>

datatype window =
    Keys fsm_result ll_fsm "byte list" "byte list"
  | Starved
  | Overrun

fun read_keys :: "ll_fsm \<Rightarrow> byte list \<Rightarrow> byte list \<Rightarrow> window" where
  "read_keys fsm buf [] = Starved"
| "read_keys fsm buf (k # keys) =
     (if 8 \<le> length buf then Overrun
      else case ll_fsm_feed fsm k of
             (LL_FSM_INNER_STATE, fsm1) \<Rightarrow> read_keys fsm1 (buf @ [k]) keys
           | (retval, fsm1) \<Rightarrow> Keys retval fsm1 (buf @ [k]) keys)"

definition handle_character :: "bool \<Rightarrow> ll_context \<Rightarrow> byte list \<Rightarrow> outcome" where
  "handle_character sg cl keys =
     (case read_keys (bindings cl) [] keys of
        Starved \<Rightarrow> Blocked
      | Overrun \<Rightarrow> Fault WindowOverflow
      | Keys retval fsm buf rest \<Rightarrow>
          (let cl1 = cl\<lparr>bindings := fsm\<rparr>
           in case retval of
                LL_FSM_FINAL_STATE func \<Rightarrow>
                  (case run_command sg func cl1 rest of
                     Return r cl2 rest2 out \<Rightarrow>
                       (let cl3 = cl2\<lparr>last_command := Some func\<rparr>
                        in if r < 0 then Return 0 cl3 rest2 (out @ [0x07])
                           else Return r cl3 rest2 out)
                   | other \<Rightarrow> other)
              | _ \<Rightarrow>
                  (case insert_str cl1 buf of
                     Inl e \<Rightarrow> Fault e
                   | Inr (r, cl2) \<Rightarrow> Return 0 (cl2\<lparr>last_command := None\<rparr>) rest [])))"

subsection \<open>The read loop\<close>

lemma read_keys_consumes:
  "read_keys fsm buf keys = Keys retval fsm1 buf1 rest \<Longrightarrow> length rest < length keys"
proof (induction keys arbitrary: fsm buf)
  case Nil
  then show ?case by simp
next
  case (Cons k keys)
  then show ?case
    by (cases "ll_fsm_feed fsm k")
       (fastforce split: if_splits fsm_result.splits)
qed

lemma run_command_keeps_keys:
  "run_command sg f cl keys = Return r cl1 rest out \<Longrightarrow> length rest \<le> length keys"
  by (cases f)
     (auto simp: returns_def ll_terminate_def ll_end_of_file_def ll_verbatim_def
           split: sum.splits prod.splits list.splits if_splits)

lemma handle_character_consumes:
  assumes "handle_character sg cl keys = Return r cl1 rest out"
  shows "length rest < length keys"
proof (cases "read_keys (bindings cl) [] keys")
  case (Keys retval fsm buf rest0)
  then have less: "length rest0 < length keys"
    by (rule read_keys_consumes)
  show ?thesis
  proof (cases retval)
    case (LL_FSM_FINAL_STATE func)
    with assms Keys obtain r0 cl2 out0
      where "run_command sg func (cl\<lparr>bindings := fsm\<rparr>) rest0 = Return r0 cl2 rest out0"
      by (auto simp: handle_character_def Let_def split: outcome.splits if_splits)
    then have "length rest \<le> length rest0"
      by (rule run_command_keeps_keys)
    with less show ?thesis by simp
  next
    case LL_FSM_INNER_STATE
    with assms Keys less show ?thesis
      by (auto simp: handle_character_def Let_def split: sum.splits prod.splits)
  next
    case LL_FSM_NONE
    with assms Keys less show ?thesis
      by (auto simp: handle_character_def Let_def split: sum.splits prod.splits)
  qed
next
  case Starved
  with assms show ?thesis by (simp add: handle_character_def)
next
  case Overrun
  with assms show ?thesis by (simp add: handle_character_def)
qed

text \<open>The bytes already written stay written, whatever the rest of the call does.\<close>

definition emit :: "byte list \<Rightarrow> outcome \<Rightarrow> outcome" where
  "emit out r =
     (case r of
        Return v cl keys out1 \<Rightarrow> Return v cl keys (out @ out1)
      | Exit out1 \<Rightarrow> Exit (out @ out1)
      | other \<Rightarrow> other)"

text \<open>\<^verbatim>\<open>do { reprint_line(); retval = handle_character(); } while (retval == 0);\<close>\<close>

function read_loop :: "bool \<Rightarrow> ll_context \<Rightarrow> byte list \<Rightarrow> outcome" where
  "read_loop sg cl keys =
     (case reprint_line sg cl of
        (cl1, out1) \<Rightarrow>
          emit out1
            (case handle_character sg cl1 keys of
               Return retval cl2 rest out2 \<Rightarrow>
                 if retval = 0 then emit out2 (read_loop sg cl2 rest)
                 else Return retval cl2 rest out2
             | other \<Rightarrow> other))"
  by pat_completeness auto
termination
  by (relation "measure (\<lambda>(sg, cl, keys). length keys)")
     (auto dest: handle_character_consumes)

declare read_loop.simps [simp del]

text \<open>
  \<^verbatim>\<open>ll_read\<close> after its one-time initialisation. The value returned is that of the last
  \<^verbatim>\<open>handle_character\<close>; the C function hands back \<^verbatim>\<open>cl.buffer.str\<close> of the returned context,
  or \<^verbatim>\<open>NULL\<close> when that value is negative.
\<close>

definition ll_read :: "bool \<Rightarrow> ll_context \<Rightarrow> byte list \<Rightarrow> byte list \<Rightarrow> outcome" where
  "ll_read sg cl prompt keys =
     (let cl0 = cl\<lparr>buffer := ll_buf_assign (buffer cl) [], fmt_len := 0, current := BufferStr,
                   focus := ll_history_size (history cl), cursor := 0, fmt_cursor := 0\<rparr>
      in emit (prompt @ [0x20])
           (case read_loop sg cl0 keys of
              Return retval cl1 rest out \<Rightarrow>
                (case reprint_line sg cl1 of
                   (cl2, out2) \<Rightarrow> Return retval cl2 rest (out @ out2 @ [0x0A]))
            | other \<Rightarrow> other))"

text \<open>
  A context as \<^verbatim>\<open>ll_set_key_bindings(LL_ANSI_KEY_BINDINGS)\<close> and \<^verbatim>\<open>ll_set_history(16)\<close> leave
  it before the first \<^verbatim>\<open>ll_read\<close>, with empty buffers.
\<close>

definition fresh :: "bool \<Rightarrow> ll_context" where
  "fresh w =
     \<lparr>bindings = ll_fsm_init w LL_ANSI_KEY_BINDINGS, last_command = None,
      history = \<lparr>entries = [], max_lines = 16\<rparr>, focus = 0, cursor = 0, fmt_cursor = 0,
      fmt_len = 0, current = BufferStr, buffer = [], clipboard = []\<rparr>"

text \<open>
  The same context while the user looks at the history entry \<open>ls\<close> (after Up), with \<open>x\<close>
  typed into the buffer before.
\<close>

definition viewing :: ll_context where
  "viewing =
     (fresh False)\<lparr>history := \<lparr>entries = [[0x6C, 0x73]], max_lines = 16\<rparr>, focus := 0,
                    cursor := 2, current := HistoryStr [0x6C, 0x73], buffer := [0x78]\<rparr>"

section \<open>Properties\<close>

subsection \<open>Reading a line as a C string\<close>

lemma strlen_le_length: "strlen ln \<le> length ln"
  by (simp add: strlen_def length_takeWhile_le)

lemma char_at_strlen: "char_at ln (int (strlen ln)) = Inr 0"
proof (cases "strlen ln < length ln")
  case True
  then have "\<not> (ln ! strlen ln \<noteq> 0)"
    unfolding strlen_def by (rule nth_length_takeWhile)
  with True show ?thesis by (simp add: char_at_def)
next
  case False
  with strlen_le_length [of ln] show ?thesis by (simp add: char_at_def)
qed

subsection \<open>Kills of an empty span\<close>

text \<open>
  C9. A kill command whose span is empty (\<^verbatim>\<open>forward-kill-line\<close> or \<^verbatim>\<open>forward-kill-word\<close>
  with the cursor at the end of the line, \<^verbatim>\<open>backward-kill-line\<close> or \<^verbatim>\<open>backward-kill-word\<close>
  with the cursor at 0) returns 0, writes nothing and leaves the whole context as it was:
  buffer, current, cursor, focus and clipboard are unchanged. Since the value is 0 and
  not negative, \<^verbatim>\<open>handle_character\<close> rings no bell for it.
\<close>

theorem empty_kill_span:
  "(cursor cl = int (strlen (line cl)) \<longrightarrow>
      run_command sg Forward_kill_line cl keys = Return 0 cl keys [] \<and>
      run_command sg Forward_kill_word cl keys = Return 0 cl keys []) \<and>
   (cursor cl = 0 \<longrightarrow>
      run_command sg Backward_kill_line cl keys = Return 0 cl keys [] \<and>
      run_command sg Backward_kill_word cl keys = Return 0 cl keys [])"
  by (simp add: returns_def ll_forward_kill_line_def ll_forward_kill_word_def
      ll_backward_kill_line_def ll_backward_kill_word_def char_at_strlen)

theorem empty_kill_span_witness:
  "cursor viewing = int (strlen (line viewing)) \<and>
   run_command True Forward_kill_line viewing [] = Return 0 viewing [] [] \<and>
   run_command True Forward_kill_word viewing [] = Return 0 viewing [] [] \<and>
   cursor (fresh True) = 0 \<and>
   run_command True Backward_kill_line (fresh True) [] = Return 0 (fresh True) [] [] \<and>
   run_command True Backward_kill_word (fresh True) [] = Return 0 (fresh True) [] []"
proof -
  have at_end: "cursor viewing = int (strlen (line viewing))"
    by (simp add: viewing_def line_def strlen_def)
  have at_start: "cursor (fresh True) = 0"
    by (simp add: fresh_def)
  from at_end at_start
    empty_kill_span [of viewing True "[]"] empty_kill_span [of "fresh True" True "[]"]
  show ?thesis by blast
qed

subsection \<open>Yank with an empty clipboard\<close>

text \<open>
  C10. With an empty clipboard \<^verbatim>\<open>yank\<close> returns 0 and leaves the whole context unchanged.
  It does not pop: while a history entry is viewed, focus and the viewed entry stay.
\<close>

theorem yank_empty_clipboard: "clipboard cl = [] \<Longrightarrow> ll_yank cl = Inr (0, cl)"
  by (simp add: ll_yank_def)

theorem yank_empty_clipboard_witness:
  "clipboard viewing = [] \<and> current viewing = HistoryStr [0x6C, 0x73] \<and>
   focus viewing < ll_history_size (history viewing) \<and> ll_yank viewing = Inr (0, viewing)"
proof -
  have empty: "clipboard viewing = []"
    by (simp add: viewing_def fresh_def)
  have "focus viewing < ll_history_size (history viewing)"
    by (simp add: viewing_def ll_history_size_def)
  moreover have "current viewing = HistoryStr [0x6C, 0x73]"
    by (simp add: viewing_def)
  ultimately show ?thesis
    using empty yank_empty_clipboard [OF empty] by simp
qed

subsection \<open>The key window under the default bindings\<close>

text \<open>No path of the trie below \<open>t\<close> has more than \<open>n\<close> edges.\<close>

fun shallow :: "nat \<Rightarrow> trie \<Rightarrow> bool" where
  "shallow 0 t = (children t = [])"
| "shallow (Suc n) t = list_all (\<lambda>(b, u). shallow n u) (children t)"

text \<open>The trie that \<^const>\<open>ll_fsm_init\<close> builds from \<^const>\<open>LL_ANSI_KEY_BINDINGS\<close>.\<close>

definition default_trie :: trie where
  "default_trie = Node None
    [(0x01, Node (Some Beginning_of_line) []), (0x02, Node (Some Backward_char) []),
     (0x03, Node (Some Terminate) []), (0x04, Node (Some End_of_file) []),
     (0x05, Node (Some End_of_line) []), (0x06, Node (Some Forward_char) []),
     (0x08, Node (Some Backward_delete_char) []), (0x0A, Node (Some Accept_line) []),
     (0x0B, Node (Some Forward_kill_line) []), (0x0E, Node (Some Next_history) []),
     (0x10, Node (Some Previous_history) []), (0x15, Node (Some Backward_kill_line) []),
     (0x16, Node (Some Verbatim) []), (0x17, Node (Some Backward_kill_word) []),
     (0x19, Node (Some Yank) []),
     (0x1B, Node None
       [(0x62, Node (Some Backward_word) []), (0x66, Node (Some Forward_word) []),
        (0x5B, Node None
          [(0x41, Node (Some Previous_history) []), (0x42, Node (Some Next_history) []),
           (0x43, Node (Some Forward_char) []), (0x44, Node (Some Backward_char) []),
           (0x33, Node None [(0x7E, Node (Some Delete_char) [])]),
           (0x37, Node None [(0x7E, Node (Some Beginning_of_line) [])]),
           (0x38, Node None [(0x7E, Node (Some End_of_line) [])])])]),
     (0x7F, Node (Some Backward_delete_char) [])]"

lemma default_bindings:
  "fold (\<lambda>(seq, f). trie_insert seq f) LL_ANSI_KEY_BINDINGS (Node None []) = default_trie"
  unfolding LL_ANSI_KEY_BINDINGS_def default_trie_def
  by simp

lemma default_fsm:
  "ll_fsm_init w LL_ANSI_KEY_BINDINGS = \<lparr>root = default_trie, node = default_trie, waits = w\<rparr>"
  by (simp only: ll_fsm_init_def default_bindings Let_def)

lemma default_shallow: "shallow 4 (node (ll_fsm_init w LL_ANSI_KEY_BINDINGS))"
proof -
  have "shallow (Suc (Suc (Suc (Suc 0)))) default_trie"
    unfolding default_trie_def by simp
  moreover have "(4::nat) = Suc (Suc (Suc (Suc 0)))"
    by simp
  ultimately show ?thesis
    by (simp only: default_fsm ll_fsm.simps)
qed

lemma shallow_child:
  assumes "shallow (Suc n) t" and "map_of (children t) k = Some u"
  shows "shallow n u"
proof -
  from assms(2) have "(k, u) \<in> set (children t)"
    by (rule map_of_SomeD)
  with assms(1) show ?thesis
    by (auto simp: list_all_iff)
qed

text \<open>
  From a node with no path longer than \<open>n\<close> the loop stores at most \<open>n\<close> more bytes, leaves
  the machine at its root, and can only be left waiting by fewer than \<open>n\<close> keys.
\<close>

lemma read_keys_bounded:
  assumes "shallow n (node fsm)" and "0 < n" and "length buf + n \<le> 8"
  shows "case read_keys fsm buf keys of
           Keys r f b rest \<Rightarrow>
             length b \<le> length buf + n \<and> r \<noteq> LL_FSM_INNER_STATE \<and> f = fsm\<lparr>node := root fsm\<rparr>
         | Starved \<Rightarrow> length keys < n
         | Overrun \<Rightarrow> False"
  using assms
proof (induction keys arbitrary: fsm buf n)
  case Nil
  then show ?case by simp
next
  case (Cons k keys)
  obtain m where n: "n = Suc m"
    using Cons.prems(2) by (cases n) auto
  have room: "\<not> 8 \<le> length buf"
    using Cons.prems(2,3) by simp
  show ?case
  proof (cases "map_of (children (node fsm)) k")
    case None
    with room n show ?thesis
      by (simp add: ll_fsm_feed_def)
  next
    case (Some u)
    have u: "shallow m u"
      using Cons.prems(1) Some unfolding n by (rule shallow_child)
    show ?thesis
    proof (cases "fst (ll_fsm_feed fsm k) = LL_FSM_INNER_STATE")
      case False
      with room Some n show ?thesis
        by (auto simp: ll_fsm_feed_def split: option.splits if_splits)
    next
      case True
      with Some have inner: "ll_fsm_feed fsm k = (LL_FSM_INNER_STATE, fsm\<lparr>node := u\<rparr>)"
        and kids: "children u \<noteq> []"
        by (auto simp: ll_fsm_feed_def split: option.splits if_splits)
      from kids u have m: "0 < m"
        by (cases m) auto
      have "case read_keys (fsm\<lparr>node := u\<rparr>) (buf @ [k]) keys of
              Keys r f b rest \<Rightarrow>
                length b \<le> length (buf @ [k]) + m \<and> r \<noteq> LL_FSM_INNER_STATE \<and>
                f = (fsm\<lparr>node := u\<rparr>)\<lparr>node := root (fsm\<lparr>node := u\<rparr>)\<rparr>
            | Starved \<Rightarrow> length keys < m
            | Overrun \<Rightarrow> False"
        using u m Cons.prems(3) n by (intro Cons.IH) auto
      with room inner n show ?thesis
        by (auto split: window.splits)
    qed
  qed
qed

text \<open>
  C8. With \<^verbatim>\<open>LL_ANSI_KEY_BINDINGS\<close> installed, whatever keys arrive, the accumulation loop
  of \<^verbatim>\<open>handle_character\<close> never stores at index 8 of its window: it stops on FINAL or NONE
  with at most 4 bytes stored and the machine back at its root, or it waits for a key
  with fewer than 4 read. This holds for both readings of the tie-break (\<open>w\<close>).
\<close>

theorem default_bindings_window:
  "case read_keys (ll_fsm_init w LL_ANSI_KEY_BINDINGS) [] keys of
     Keys r f b rest \<Rightarrow>
       length b \<le> 4 \<and> r \<noteq> LL_FSM_INNER_STATE \<and> f = ll_fsm_init w LL_ANSI_KEY_BINDINGS
   | Starved \<Rightarrow> length keys < 4
   | Overrun \<Rightarrow> False"
  using read_keys_bounded [OF default_shallow, of "[]" w keys]
  by (simp add: default_fsm split: window.splits)

text \<open>The bound is reached: Delete is the four bytes \<^verbatim>\<open>1B 5B 33 7E\<close>.\<close>

lemma delete_key_window:
  "read_keys (ll_fsm_init w LL_ANSI_KEY_BINDINGS) [] [0x1B, 0x5B, 0x33, 0x7E] =
     Keys (LL_FSM_FINAL_STATE Delete_char) (ll_fsm_init w LL_ANSI_KEY_BINDINGS)
       [0x1B, 0x5B, 0x33, 0x7E] []"
  by (simp add: default_fsm default_trie_def ll_fsm_feed_def)

subsection \<open>The recogniser between key sequences\<close>

text \<open>
  No command and no insertion touches \<^verbatim>\<open>cl.bindings\<close>, and the accumulation loop hands the
  machine back at its root: every \<^verbatim>\<open>handle_character\<close> of a read loop starts from the
  machine that \<^verbatim>\<open>ll_set_key_bindings\<close> built.
\<close>

lemma pop_line_bindings: "bindings (snd (pop_line cl)) = bindings cl"
  by (simp add: pop_line_def)

lemma reprint_line_bindings: "bindings (fst (reprint_line sg cl)) = bindings cl"
  by (simp add: reprint_line_def Let_def split: prod.splits)

lemma insert_str_bindings: "insert_str cl str = Inr (r, cl1) \<Longrightarrow> bindings cl1 = bindings cl"
  by (auto simp: insert_str_def Let_def pop_line_bindings split: sum.splits)

lemma insert_char_bindings: "insert_char cl c = Inr (r, cl1) \<Longrightarrow> bindings cl1 = bindings cl"
  by (auto simp: insert_char_def Let_def pop_line_bindings split: sum.splits)

lemma motion_bindings:
  "ll_backward_char cl = Inr (r, cl1) \<Longrightarrow> bindings cl1 = bindings cl"
  "ll_forward_char cl = Inr (r, cl1) \<Longrightarrow> bindings cl1 = bindings cl"
  "ll_backward_word cl = Inr (r, cl1) \<Longrightarrow> bindings cl1 = bindings cl"
  "ll_forward_word cl = Inr (r, cl1) \<Longrightarrow> bindings cl1 = bindings cl"
  "ll_beginning_of_line cl = Inr (r, cl1) \<Longrightarrow> bindings cl1 = bindings cl"
  "ll_end_of_line cl = Inr (r, cl1) \<Longrightarrow> bindings cl1 = bindings cl"
  "ll_previous_history cl = Inr (r, cl1) \<Longrightarrow> bindings cl1 = bindings cl"
  "ll_next_history cl = Inr (r, cl1) \<Longrightarrow> bindings cl1 = bindings cl"
  "ll_beginning_of_history cl = Inr (r, cl1) \<Longrightarrow> bindings cl1 = bindings cl"
  "ll_end_of_history cl = Inr (r, cl1) \<Longrightarrow> bindings cl1 = bindings cl"
  by (auto simp: ll_backward_char_def ll_forward_char_def ll_backward_word_def
        ll_forward_word_def ll_beginning_of_line_def ll_end_of_line_def ll_previous_history_def
        ll_next_history_def ll_beginning_of_history_def ll_end_of_history_def
        split: sum.splits if_splits)

lemma delete_char_bindings: "ll_delete_char cl = Inr (r, cl1) \<Longrightarrow> bindings cl1 = bindings cl"
  by (auto simp: ll_delete_char_def Let_def pop_line_bindings split: sum.splits if_splits)

lemma editing_bindings:
  "ll_backward_delete_char cl = Inr (r, cl1) \<Longrightarrow> bindings cl1 = bindings cl"
  "ll_forward_kill_line cl = Inr (r, cl1) \<Longrightarrow> bindings cl1 = bindings cl"
  "ll_backward_kill_line cl = Inr (r, cl1) \<Longrightarrow> bindings cl1 = bindings cl"
  "ll_yank cl = Inr (r, cl1) \<Longrightarrow> bindings cl1 = bindings cl"
  "ll_accept_line cl = Inr (r, cl1) \<Longrightarrow> bindings cl1 = bindings cl"
  by (auto simp: ll_backward_delete_char_def ll_forward_kill_line_def ll_backward_kill_line_def
        ll_yank_def ll_accept_line_def push_line_def Let_def pop_line_bindings
        split: sum.splits if_splits prod.splits
        dest!: motion_bindings(1) delete_char_bindings insert_str_bindings)

lemma kill_word_bindings:
  "ll_forward_kill_word cl = Inr (r, cl1) \<Longrightarrow> bindings cl1 = bindings cl"
  "ll_backward_kill_word cl = Inr (r, cl1) \<Longrightarrow> bindings cl1 = bindings cl"
  by (auto simp: ll_forward_kill_word_def ll_backward_kill_word_def Let_def pop_line_bindings
        split: sum.splits if_splits prod.splits
        dest!: motion_bindings(3) motion_bindings(4))

lemma run_command_bindings:
  assumes "run_command sg f cl keys = Return r cl1 rest out"
  shows "bindings cl1 = bindings cl"
  using assms
  by (cases f)
     (auto simp: returns_def ll_terminate_def ll_end_of_file_def ll_verbatim_def
           reprint_line_bindings [of sg cl, symmetric]
           split: sum.splits prod.splits list.splits if_splits
           dest: motion_bindings delete_char_bindings editing_bindings kill_word_bindings
                 insert_char_bindings)


lemma handle_character_keeps_default_bindings:
  assumes "bindings cl = ll_fsm_init w LL_ANSI_KEY_BINDINGS"
    and "handle_character sg cl keys = Return r cl1 rest out"
  shows "bindings cl1 = ll_fsm_init w LL_ANSI_KEY_BINDINGS"
proof (cases "read_keys (bindings cl) [] keys")
  case (Keys retval fsm buf rest0)
  with read_keys_bounded [OF default_shallow, of "[]" w keys] assms(1)
  have fsm: "fsm = bindings cl"
    by (simp add: default_fsm)
  show ?thesis
  proof (cases retval)
    case (LL_FSM_FINAL_STATE func)
    with assms(2) Keys fsm obtain r0 cl2 out0
      where "run_command sg func cl rest0 = Return r0 cl2 rest out0"
        and "cl1 = cl2\<lparr>last_command := Some func\<rparr>"
      by (auto simp: handle_character_def Let_def split: outcome.splits if_splits)
    with assms(1) show ?thesis
      by (auto dest: run_command_bindings)
  next
    case LL_FSM_INNER_STATE
    with assms Keys fsm show ?thesis
      by (auto simp: handle_character_def Let_def split: sum.splits prod.splits
               dest: insert_str_bindings)
  next
    case LL_FSM_NONE
    with assms Keys fsm show ?thesis
      by (auto simp: handle_character_def Let_def split: sum.splits prod.splits
               dest: insert_str_bindings)
  qed
next
  case Starved
  with assms(2) show ?thesis by (simp add: handle_character_def)
next
  case Overrun
  with assms(2) show ?thesis by (simp add: handle_character_def)
qed

subsection \<open>Rendering twice\<close>

text \<open>What the scan of \<^verbatim>\<open>reprint_line\<close> computes from the line and the cursor alone.\<close>

definition formatted :: "bool \<Rightarrow> ll_context \<Rightarrow> int \<times> int \<times> byte list" where
  "formatted sg cl = reprint_loop sg (line cl) (cursor cl) 0 (- 1) 0"

text \<open>The line \<open>a\<close> with the cursor on it, before it has been drawn.\<close>

definition typed_a :: ll_context where
  "typed_a = (fresh False)\<lparr>buffer := [0x61], cursor := 0\<rparr>"

lemma line_fmt_update: "line (cl\<lparr>fmt_cursor := a, fmt_len := b\<rparr>) = line cl"
  by (simp add: line_def split: line_ptr.splits)

lemma reprint_line_unfold:
  assumes "reprint_loop sg (line cl) (cursor cl) 0 (- 1) 0 = (fc, fl, out)"
  shows "reprint_line sg cl =
    (cl\<lparr>fmt_cursor := (if fc < 0 then fl else fc), fmt_len := fl\<rparr>,
     replicate (nat (fmt_cursor cl)) 0x08 @ out @
     replicate (if size_t fl < size_t (fmt_len cl)
                then nat (size_t (fmt_len cl) - size_t fl) else 0) 0x20 @
     replicate (nat (fl + int (if size_t fl < size_t (fmt_len cl)
                               then nat (size_t (fmt_len cl) - size_t fl) else 0)
                     - (if fc < 0 then fl else fc))) 0x08)"
  using assms by (simp add: reprint_line_def Let_def)

lemma reprint_char_visible:
  "it < length ln \<Longrightarrow> reprint_char sg ln it = Glyph bs cols n \<Longrightarrow> bs \<noteq> []"
  by (auto simp: reprint_char_def Let_def split: if_splits)

text \<open>A scan that writes nothing has added no column.\<close>

lemma reprint_loop_silent:
  assumes "reprint_loop sg ln cur it fc fl = (fc1, fl1, [])"
  shows "fl1 = fl \<and> (fc1 = fc \<or> fc1 = fl)"
proof (cases "it < length ln \<and> ln ! it \<noteq> 0")
  case False
  with assms show ?thesis
    by (simp add: reprint_loop.simps [of sg ln cur it])
next
  case True
  show ?thesis
  proof (cases "reprint_char sg ln it")
    case Break
    with True assms show ?thesis
      by (simp add: reprint_loop.simps [of sg ln cur it] Let_def split: if_splits)
  next
    case (Glyph bs cols n)
    with True have "bs \<noteq> []"
      by (auto dest: reprint_char_visible)
    with True Glyph assms show ?thesis
      by (simp add: reprint_loop.simps [of sg ln cur it] Let_def split: prod.splits)
  qed
qed

text \<open>
  C5, as the code has it. A second \<^verbatim>\<open>reprint_line\<close> right after a first leaves the context
  as the first left it, and writes the whole formatted line again: \<^verbatim>\<open>fmt_cursor\<close>
  backspaces, the bytes of the line as formatted, and the backspaces from the end of the
  line to the cursor. It writes no byte exactly when the line formats to no byte.
\<close>

theorem second_render_repaints:
  "reprint_line sg (fst (reprint_line sg cl)) =
     (fst (reprint_line sg cl),
      replicate (nat (fmt_cursor (fst (reprint_line sg cl)))) 0x08 @
      snd (snd (formatted sg cl)) @
      replicate (nat (fmt_len (fst (reprint_line sg cl))
                      - fmt_cursor (fst (reprint_line sg cl)))) 0x08) \<and>
   (snd (reprint_line sg (fst (reprint_line sg cl))) = []) = (snd (snd (formatted sg cl)) = [])"
proof -
  obtain fc fl out where f: "reprint_loop sg (line cl) (cursor cl) 0 (- 1) 0 = (fc, fl, out)"
    by (cases "reprint_loop sg (line cl) (cursor cl) 0 (- 1) 0") auto
  define cl1 where "cl1 = cl\<lparr>fmt_cursor := (if fc < 0 then fl else fc), fmt_len := fl\<rparr>"
  have first: "fst (reprint_line sg cl) = cl1"
    by (simp add: reprint_line_unfold [OF f] cl1_def)
  have same: "reprint_loop sg (line cl1) (cursor cl1) 0 (- 1) 0 = (fc, fl, out)"
    unfolding cl1_def line_fmt_update using f by simp
  have second: "reprint_line sg cl1 =
     (cl1, replicate (nat (fmt_cursor cl1)) 0x08 @ out @
           replicate (nat (fmt_len cl1 - fmt_cursor cl1)) 0x08)"
    by (simp add: reprint_line_unfold [OF same]) (simp add: cl1_def)
  have "fmt_cursor cl1 = 0 \<and> fmt_len cl1 = 0" if "out = []"
    using reprint_loop_silent [of sg "line cl" "cursor cl" 0 "- 1" 0 fc fl] f that
    by (auto simp: cl1_def)
  then have "(snd (reprint_line sg cl1) = []) = (out = [])"
    by (auto simp: second)
  with second show ?thesis
    by (simp add: first formatted_def f)
qed

text \<open>
  C5, as stated, fails on the line \<open>a\<close>: the second render writes \<open>a\<close> and a backspace.
\<close>

theorem second_render_counterexample:
  "snd (reprint_line False (fst (reprint_line False typed_a))) = [0x61, 0x08] \<and>
   snd (reprint_line False (fst (reprint_line False typed_a))) \<noteq> []"
  by (simp add: reprint_line_def typed_a_def fresh_def line_def reprint_loop.simps
      reprint_char_def size_t_def strlen_def Let_def)

subsection \<open>The escape of a malformed lead byte\<close>

text \<open>
  A byte with the high bit set that matches none of the lead patterns of the renderer.
\<close>

definition malformed_lead :: "byte \<Rightarrow> bool" where
  "malformed_lead c \<longleftrightarrow>
     c AND 0x80 \<noteq> 0 \<and> c AND 0xE0 \<noteq> 0xC0 \<and> c AND 0xF0 \<noteq> 0xE0 \<and>
     c AND 0xF8 \<noteq> 0xF0 \<and> c AND 0xFC \<noteq> 0xF8"

text \<open>The context after the bytes \<open>bs\<close> have been typed on an empty line.\<close>

definition typed :: "byte list \<Rightarrow> ll_context" where
  "typed bs = (fresh False)\<lparr>buffer := bs, cursor := int (length bs)\<rparr>"

lemma control_has_low_bits: "c < 32 \<Longrightarrow> c AND 0x80 = 0" for c :: byte
proof -
  assume "c < 32"
  then have "c < 2 ^ 5" by simp
  then have "c AND mask 5 = c" by (rule less_mask_eq)
  then have "c AND 0x80 = c AND (mask 5 AND 0x80)"
    by (metis and.assoc)
  also have "(mask 5 :: byte) AND 0x80 = 0"
    by (simp add: mask_eq_exp_minus_1)
  finally show ?thesis by simp
qed

lemma low_digit:
  "word_of_int (uint c AND 0xF) = c AND 0xF" "word_of_int (sint c AND 0xF) = c AND 0xF"
  for c :: byte
  by (simp_all add: of_int_and_eq)

lemma high_digit_unsigned:
  "word_of_int (drop_bit 4 (uint c)) = drop_bit 4 c" for c :: byte
proof -
  have "uint c < 2 ^ LENGTH(8)"
    by (rule uint_lt2p)
  then have "take_bit 8 (uint c) = uint c"
    by (simp add: take_bit_int_eq_self)
  then have "drop_bit 4 (uint c) = uint (drop_bit 4 c)"
    by (simp add: unsigned_drop_bit_eq)
  then show ?thesis by simp
qed

lemma high_digit_signed:
  "word_of_int (drop_bit 4 (sint c)) = signed_drop_bit 4 c" for c :: byte
proof -
  have "drop_bit 4 (sint c) = sint (signed_drop_bit 4 c)"
    by (simp add: sint_signed_drop_bit_eq)
  then show ?thesis by simp
qed

text \<open>
  Where plain \<^verbatim>\<open>char\<close> is unsigned the escape is \<^verbatim>\<open>\x\<close>, \<open>'0'\<close> plus the high nibble,
  \<open>'0'\<close> plus the low nibble, in 4 columns.
\<close>

lemma escape_unsigned_char:
  assumes "malformed_lead (ln ! it)"
  shows "reprint_char False ln it =
           Glyph [0x5C, 0x78, 0x30 + drop_bit 4 (ln ! it), 0x30 + (ln ! it AND 0xF)] 4 1"
proof -
  from assms have "\<not> ln ! it < 32"
    by (auto simp: malformed_lead_def dest: control_has_low_bits)
  with assms show ?thesis
    by (simp add: reprint_char_def malformed_lead_def Let_def low_digit
          char_value_def [of False] high_digit_unsigned)
qed

text \<open>
  Where plain \<^verbatim>\<open>char\<close> is signed the byte is negative, the shift is arithmetic, and the
  first digit is \<open>'0'\<close> plus the sign-extended high nibble, which is never \<open>'0'\<close> plus the
  high nibble.
\<close>

lemma escape_signed_char:
  assumes "malformed_lead (ln ! it)"
  shows "reprint_char True ln it =
           Glyph [0x5C, 0x78, 0x30 + signed_drop_bit 4 (ln ! it), 0x30 + (ln ! it AND 0xF)] 4 1"
proof -
  from assms have "\<not> ln ! it < 32"
    by (auto simp: malformed_lead_def dest: control_has_low_bits)
  with assms show ?thesis
    by (simp add: reprint_char_def malformed_lead_def Let_def low_digit
          char_value_def [of True] high_digit_signed)
qed

lemma signed_digit_differs:
  assumes "malformed_lead c"
  shows "0x30 + signed_drop_bit 4 c \<noteq> 0x30 + drop_bit 4 c"
proof
  assume "0x30 + signed_drop_bit 4 c = 0x30 + drop_bit 4 c"
  then have e: "signed_drop_bit 4 c = drop_bit 4 c"
    by simp
  from assms have "bit c 7"
    by (simp add: malformed_lead_def bit_iff_and_push_bit_not_eq_0)
  then have "bit (signed_drop_bit 4 c) 7"
    by (simp add: bit_signed_drop_bit_iff)
  moreover have "\<not> bit (drop_bit 4 c) 7"
    by (auto simp: bit_drop_bit_eq dest: bit_imp_le_length)
  ultimately show False
    using e by simp
qed

text \<open>
  C7 at the byte \<^verbatim>\<open>0x80\<close>, typed on an empty line, with plain \<^verbatim>\<open>char\<close> signed: the
  renderer writes \<^verbatim>\<open>\x(0\<close> (\<^verbatim>\<open>5C 78 28 30\<close>) in 4 columns. The first digit is \<^verbatim>\<open>0x28\<close>, not
  \<open>'0'\<close> plus the high nibble 8.
\<close>

theorem escape_of_0x80_signed_char:
  "malformed_lead 0x80 \<and>
   reprint_line True (typed [0x80]) =
     ((typed [0x80])\<lparr>fmt_cursor := 4, fmt_len := 4\<rparr>, [0x5C, 0x78, 0x28, 0x30]) \<and>
   (0x28 :: byte) \<noteq> 0x30 + drop_bit 4 0x80"
  by (simp add: malformed_lead_def reprint_line_def typed_def fresh_def line_def
      reprint_loop.simps reprint_char_def size_t_def strlen_def char_value_def Let_def)

subsection \<open>Typing bytes that are not UTF-8\<close>

lemma fresh_default:
  "fresh w =
     \<lparr>bindings = \<lparr>root = default_trie, node = default_trie, waits = w\<rparr>, last_command = None,
      history = \<lparr>entries = [], max_lines = 16\<rparr>, focus = 0, cursor = 0, fmt_cursor = 0,
      fmt_len = 0, current = BufferStr, buffer = [], clipboard = []\<rparr>"
  by (simp add: fresh_def default_fsm)

text \<open>
  No binding starts with \<^verbatim>\<open>A9\<close>, \<^verbatim>\<open>FF\<close> or \<^verbatim>\<open>00\<close>: typed on the empty line, each is
  inserted as it is and the cursor moves behind it.
\<close>

lemma types_continuation_byte:
  "handle_character sg (fresh False) (0xA9 # keys) = Return 0 (typed [0xA9]) keys []"
  by (simp add: typed_def fresh_default handle_character_def default_trie_def ll_fsm_feed_def
        insert_str_def pop_line_def ll_buf_insert_def Let_def)

lemma types_0xFF:
  "handle_character sg (fresh False) (0xFF # keys) = Return 0 (typed [0xFF]) keys []"
  by (simp add: typed_def fresh_default handle_character_def default_trie_def ll_fsm_feed_def
        insert_str_def pop_line_def ll_buf_insert_def Let_def)

lemma types_NUL:
  "handle_character sg (fresh False) (0x00 # keys) = Return 0 (typed [0x00]) keys []"
  by (simp add: typed_def fresh_default handle_character_def default_trie_def ll_fsm_feed_def
        insert_str_def pop_line_def ll_buf_insert_def Let_def)

subsection \<open>The cursor after \<^verbatim>\<open>backward-char\<close>\<close>

lemma backward_char_from_continuation_byte:
  "ll_backward_char (typed [0xA9]) = Inl (OutOfBounds (- 1))"
  by (simp add: typed_def fresh_def ll_backward_char_def line_def backward_char_loop.simps
        char_at_def)

text \<open>
  C2 on the keys \<^verbatim>\<open>A9\<close> (a continuation byte, inserted as typed) and \<^verbatim>\<open>02\<close> (C-b) read by
  \<^verbatim>\<open>ll_read\<close> with the default bindings: \<^verbatim>\<open>ll_backward_char\<close> steps from cursor 1 to 0,
  finds the continuation byte there, steps to \<open>-1\<close> and reads \<^verbatim>\<open>cl.current[-1]\<close>, one byte
  before the line. The loop of \<^verbatim>\<open>ll_backward_word\<close> tests \<^verbatim>\<open>cl.cursor >= 0\<close>; this one
  has no such test.
\<close>

theorem backward_char_leaves_line:
  "ll_read sg (fresh False) prompt [0xA9, 0x02] = Fault (OutOfBounds (- 1))"
  by (simp add: ll_read_def ll_buf_assign_def ll_history_size_def fresh_default
        read_loop.simps reprint_line_def reprint_loop.simps reprint_char_def size_t_def
        strlen_def line_def handle_character_def default_trie_def ll_fsm_feed_def emit_def
        insert_str_def pop_line_def ll_buf_insert_def returns_def ll_backward_char_def
        backward_char_loop.simps char_at_def Let_def)

subsection \<open>\<^verbatim>\<open>delete-char\<close> on a byte that is no lead\<close>

text \<open>
  The number of bytes \<^verbatim>\<open>ll_delete_char\<close> erases at a byte: the length its lead pattern
  announces, and none for a byte that matches no pattern, since the chain of tests has
  no final \<^verbatim>\<open>else\<close>.
\<close>

definition lead_length :: "byte \<Rightarrow> nat" where
  "lead_length c =
     (if c AND 0x80 = 0 then 1
      else if c AND 0xE0 = 0xC0 then 2
      else if c AND 0xF0 = 0xE0 then 3
      else if c AND 0xF8 = 0xF0 then 4
      else if c AND 0xFC = 0xF8 then 5
      else 0)"

text \<open>
  C4 at the line \<^verbatim>\<open>FF\<close> with the cursor on the byte (after \<^verbatim>\<open>FF\<close> and C-a were typed):
  \<^verbatim>\<open>ll_delete_char\<close> returns 0 and removes nothing; the context is unchanged.
\<close>

theorem delete_char_keeps_0xFF:
  "malformed_lead 0xFF \<and> lead_length 0xFF = 0 \<and>
   ll_delete_char ((typed [0xFF])\<lparr>cursor := 0\<rparr>) = Inr (0, (typed [0xFF])\<lparr>cursor := 0\<rparr>)"
  by (simp add: malformed_lead_def lead_length_def typed_def fresh_def ll_delete_char_def
        line_def char_at_def pop_line_def Let_def)

text \<open>The same through the key dispatcher, when the Delete key is pressed there.\<close>

lemma delete_key_keeps_0xFF:
  "handle_character sg ((typed [0xFF])\<lparr>cursor := 0, last_command := Some Beginning_of_line\<rparr>)
     [0x1B, 0x5B, 0x33, 0x7E] =
   Return 0 ((typed [0xFF])\<lparr>cursor := 0, last_command := Some Delete_char\<rparr>) [] []"
  by (simp add: typed_def fresh_default handle_character_def default_trie_def ll_fsm_feed_def
        returns_def ll_delete_char_def line_def char_at_def pop_line_def Let_def)

subsection \<open>The line that an editing command works on\<close>

text \<open>The buffer as \<^verbatim>\<open>pop_line\<close> leaves it: the line on view, up to its first NUL.\<close>

definition edited :: "ll_context \<Rightarrow> byte list" where
  "edited cl = buffer (snd (pop_line cl))"

lemma in_line:
  assumes "0 \<le> c" and "c < int (strlen ln)"
  shows "char_at ln c = Inr (ln ! nat c) \<and> ln ! nat c \<noteq> 0 \<and> c < int (length ln)"
proof -
  from assms have n: "nat c < length (takeWhile (\<lambda>b. b \<noteq> 0) ln)"
    by (simp add: strlen_def)
  then have "takeWhile (\<lambda>b. b \<noteq> 0) ln ! nat c \<in> set (takeWhile (\<lambda>b. b \<noteq> 0) ln)"
    by (rule nth_mem)
  then have "takeWhile (\<lambda>b. b \<noteq> 0) ln ! nat c \<noteq> 0"
    by (auto dest: set_takeWhileD)
  moreover from n have "takeWhile (\<lambda>b. b \<noteq> 0) ln ! nat c = ln ! nat c"
    by (rule takeWhile_nth)
  moreover from assms strlen_le_length [of ln] have "c < int (length ln)"
    by simp
  ultimately show ?thesis
    using assms by (simp add: char_at_def)
qed

lemma strlen_take: "strlen (take (strlen ln) ln) = strlen ln"
proof -
  have "take (strlen ln) ln = takeWhile (\<lambda>b. b \<noteq> 0) ln"
    unfolding strlen_def by (rule takeWhile_eq_take [symmetric])
  then show ?thesis
    by (simp add: strlen_def)
qed

lemma pop_line_fields:
  "line (snd (pop_line cl)) = edited cl"
  "current (snd (pop_line cl)) = BufferStr"
  "cursor (snd (pop_line cl)) = cursor cl"
  "clipboard (snd (pop_line cl)) = clipboard cl"
  "last_command (snd (pop_line cl)) = last_command cl"
  "strlen (edited cl) = strlen (line cl)"
  by (auto simp: pop_line_def edited_def line_def ll_buf_assign_def strlen_take
           split: line_ptr.splits)

lemma edited_nth: "c < strlen (line cl) \<Longrightarrow> edited cl ! c = line cl ! c"
  by (auto simp: pop_line_def edited_def line_def ll_buf_assign_def split: line_ptr.splits)

text \<open>
  With the cursor on a byte of the line and the bytes that the lead announces present,
  \<^verbatim>\<open>ll_delete_char\<close> removes exactly \<^const>\<open>lead_length\<close> bytes at the cursor and returns 0;
  with the cursor at the end of the line it refuses.
\<close>

lemma delete_char_erases_lead_length:
  assumes "0 \<le> cursor cl" and "cursor cl < int (strlen (line cl))"
    and "nat (cursor cl) + lead_length (line cl ! nat (cursor cl)) \<le> length (edited cl)"
  shows "ll_delete_char cl =
     Inr (0, (snd (pop_line cl))
              \<lparr>buffer := take (nat (cursor cl)) (edited cl) @
                         drop (nat (cursor cl) + lead_length (line cl ! nat (cursor cl))) (edited cl),
               current := BufferStr\<rparr>)"
proof -
  define cl0 where "cl0 = snd (pop_line cl)"
  define c where "c = line cl ! nat (cursor cl)"
  have cl0: "line cl0 = edited cl" "buffer cl0 = edited cl" "cursor cl0 = cursor cl"
    by (simp_all add: cl0_def pop_line_fields edited_def)
  from in_line [OF assms(1,2)] have guard: "char_at (line cl) (cursor cl) = Inr c" "c \<noteq> 0"
    by (simp_all add: c_def)
  from assms(1,2) have "0 \<le> cursor cl" "cursor cl < int (strlen (edited cl))"
    by (simp_all add: pop_line_fields)
  from in_line [OF this] assms(1,2) have again: "char_at (edited cl) (cursor cl) = Inr c"
    and inside: "cursor cl < int (length (edited cl))"
    by (simp_all add: c_def edited_nth)
  have erase: "ll_buf_erase (edited cl) (cursor cl) (int n) =
      Inr (take (nat (cursor cl)) (edited cl) @ drop (nat (cursor cl) + n) (edited cl))"
    if "nat (cursor cl) + n \<le> length (edited cl)" for n
    using that assms(1) by (simp add: ll_buf_erase_def nat_add_distrib)
  have whole: "take (nat (cursor cl)) (edited cl) @ drop (nat (cursor cl)) (edited cl) = edited cl"
    by simp
  from assms(3) show ?thesis
    unfolding c_def [symmetric] cl0_def [symmetric]
    by (simp add: ll_delete_char_def guard Let_def cl0_def [symmetric] cl0 again
          lead_length_def erase [of 1, simplified] erase [of 2, simplified]
          erase [of 3, simplified] erase [of 4, simplified] erase [of 5, simplified]
          split: if_splits)
qed

lemma delete_char_at_end:
  "cursor cl = int (strlen (line cl)) \<Longrightarrow> ll_delete_char cl = Inr (- 1, cl)"
  by (simp add: ll_delete_char_def char_at_strlen)

subsection \<open>Refused commands\<close>

lemma backward_char_refusal: "ll_backward_char cl = Inr (r, cl1) \<Longrightarrow> r < 0 \<Longrightarrow> cl1 = cl"
  by (auto simp: ll_backward_char_def split: if_splits sum.splits)

lemma forward_char_refusal: "ll_forward_char cl = Inr (r, cl1) \<Longrightarrow> r < 0 \<Longrightarrow> cl1 = cl"
  by (auto simp: ll_forward_char_def split: if_splits sum.splits)

lemma backward_word_refusal: "ll_backward_word cl = Inr (r, cl1) \<Longrightarrow> r < 0 \<Longrightarrow> cl1 = cl"
  by (auto simp: ll_backward_word_def split: if_splits sum.splits)

lemma forward_word_refusal: "ll_forward_word cl = Inr (r, cl1) \<Longrightarrow> r < 0 \<Longrightarrow> cl1 = cl"
  by (auto simp: ll_forward_word_def split: if_splits sum.splits)

lemma previous_history_refusal:
  "ll_previous_history cl = Inr (r, cl1) \<Longrightarrow> r < 0 \<Longrightarrow> cl1 = cl"
  by (auto simp: ll_previous_history_def split: if_splits sum.splits)

lemma next_history_refusal: "ll_next_history cl = Inr (r, cl1) \<Longrightarrow> r < 0 \<Longrightarrow> cl1 = cl"
  by (auto simp: ll_next_history_def split: if_splits sum.splits)

lemma delete_char_refusal: "ll_delete_char cl = Inr (r, cl1) \<Longrightarrow> r < 0 \<Longrightarrow> cl1 = cl"
  by (auto simp: ll_delete_char_def Let_def split: if_splits sum.splits)

lemma forward_kill_line_returns_0: "ll_forward_kill_line cl = Inr (r, cl1) \<Longrightarrow> r = 0"
  by (auto simp: ll_forward_kill_line_def Let_def split: if_splits sum.splits)

lemma backward_kill_line_returns_0: "ll_backward_kill_line cl = Inr (r, cl1) \<Longrightarrow> r = 0"
  by (auto simp: ll_backward_kill_line_def Let_def split: if_splits sum.splits)

lemma forward_kill_word_returns_0: "ll_forward_kill_word cl = Inr (r, cl1) \<Longrightarrow> r = 0"
  by (auto simp: ll_forward_kill_word_def Let_def split: if_splits sum.splits prod.splits)

lemma backward_kill_word_returns_0: "ll_backward_kill_word cl = Inr (r, cl1) \<Longrightarrow> r = 0"
  by (auto simp: ll_backward_kill_word_def Let_def split: if_splits sum.splits prod.splits)

lemma yank_returns_0: "ll_yank cl = Inr (r, cl1) \<Longrightarrow> r = 0"
  by (auto simp: ll_yank_def Let_def split: if_splits sum.splits prod.splits)

text \<open>
  Every command but \<^verbatim>\<open>backward-delete-char\<close> that returns a negative value has written
  nothing, read no key and left the context as it was.
\<close>

lemma refusal_keeps_context:
  assumes "run_command sg f cl keys = Return r cl1 rest out" and "r < 0"
    and "f \<noteq> Backward_delete_char"
  shows "cl1 = cl \<and> rest = keys \<and> out = []"
proof (cases f)
  case Backward_char
  with assms show ?thesis
    by (auto simp: returns_def split: sum.splits dest: backward_char_refusal)
next
  case Forward_char
  with assms show ?thesis
    by (auto simp: returns_def split: sum.splits dest: forward_char_refusal)
next
  case Backward_word
  with assms show ?thesis
    by (auto simp: returns_def split: sum.splits dest: backward_word_refusal)
next
  case Forward_word
  with assms show ?thesis
    by (auto simp: returns_def split: sum.splits dest: forward_word_refusal)
next
  case Previous_history
  with assms show ?thesis
    by (auto simp: returns_def split: sum.splits dest: previous_history_refusal)
next
  case Next_history
  with assms show ?thesis
    by (auto simp: returns_def split: sum.splits dest: next_history_refusal)
next
  case Delete_char
  with assms show ?thesis
    by (auto simp: returns_def split: sum.splits dest: delete_char_refusal)
next
  case End_of_file
  with assms show ?thesis
    by (auto simp: returns_def ll_end_of_file_def ll_terminate_def
             split: sum.splits if_splits dest: delete_char_refusal)
next
  case Forward_kill_line
  with assms show ?thesis
    by (auto simp: returns_def split: sum.splits dest: forward_kill_line_returns_0)
next
  case Backward_kill_line
  with assms show ?thesis
    by (auto simp: returns_def split: sum.splits dest: backward_kill_line_returns_0)
next
  case Forward_kill_word
  with assms show ?thesis
    by (auto simp: returns_def split: sum.splits dest: forward_kill_word_returns_0)
next
  case Backward_kill_word
  with assms show ?thesis
    by (auto simp: returns_def split: sum.splits dest: backward_kill_word_returns_0)
next
  case Yank
  with assms show ?thesis
    by (auto simp: returns_def split: sum.splits dest: yank_returns_0)
next
  case Verbatim
  with assms show ?thesis
    by (auto simp: ll_verbatim_def split: sum.splits prod.splits list.splits)
qed (use assms in \<open>auto simp: returns_def ll_terminate_def ll_beginning_of_line_def
       ll_end_of_line_def ll_accept_line_def ll_beginning_of_history_def ll_end_of_history_def
       split: sum.splits\<close>)

text \<open>
  \<^verbatim>\<open>backward-delete-char\<close> too, as long as no NUL byte lies before the cursor: the step
  back then lands on a byte of the line, which \<^verbatim>\<open>ll_delete_char\<close> does not refuse.
\<close>

lemma backward_char_loop_bounds:
  "backward_char_loop ln c = Inr c1 \<Longrightarrow> 0 \<le> c1 \<and> c1 < c"
proof (induction ln c rule: backward_char_loop.induct)
  case (1 ln c)
  from "1.prems" obtain b where b: "char_at ln (c - 1) = Inr b"
    by (subst (asm) backward_char_loop.simps) (auto split: sum.splits)
  then have pos: "0 \<le> c - 1"
    by (auto simp: char_at_def split: if_splits)
  show ?case
  proof (cases "b AND 0xC0 = 0x80")
    case True
    with b "1.prems" have "backward_char_loop ln (c - 1) = Inr c1"
      by (subst (asm) backward_char_loop.simps) simp
    with "1.IH" [OF b True] show ?thesis by simp
  next
    case False
    with b "1.prems" have "c1 = c - 1"
      by (subst (asm) backward_char_loop.simps) simp
    with pos show ?thesis by simp
  qed
qed

lemma backward_delete_char_refusal:
  assumes "ll_backward_delete_char cl = Inr (r, cl1)" and "r < 0"
    and "cursor cl \<le> int (strlen (line cl))"
  shows "cl1 = cl"
proof (cases "cursor cl = 0")
  case True
  with assms(1) show ?thesis
    by (simp add: ll_backward_delete_char_def ll_backward_char_def)
next
  case False
  with assms(1) obtain c1 where loop: "backward_char_loop (line cl) (cursor cl) = Inr c1"
    by (auto simp: ll_backward_delete_char_def ll_backward_char_def split: sum.splits)
  then have c1: "0 \<le> c1" "c1 < cursor cl"
    by (auto dest: backward_char_loop_bounds)
  with assms(3) have "c1 < int (strlen (line (cl\<lparr>cursor := c1\<rparr>)))"
    by (simp add: line_def split: line_ptr.splits)
  with c1(1) in_line [of c1 "line (cl\<lparr>cursor := c1\<rparr>)"]
  obtain b where "char_at (line (cl\<lparr>cursor := c1\<rparr>)) c1 = Inr b" "b \<noteq> 0"
    by auto
  then have "\<exists>cl2. ll_delete_char (cl\<lparr>cursor := c1\<rparr>) = Inr (0, cl2) \<or> (\<exists>e. ll_delete_char (cl\<lparr>cursor := c1\<rparr>) = Inl e)"
    by (auto simp: ll_delete_char_def Let_def split: sum.splits)
  with False loop assms(1,2) show ?thesis
    by (auto simp: ll_backward_delete_char_def ll_backward_char_def split: sum.splits)
qed

text \<open>Whatever a command did before it returned a negative value, the bell follows.\<close>

lemma refusal_rings_bell:
  assumes "read_keys (bindings cl) [] keys = Keys (LL_FSM_FINAL_STATE f) fsm buf rest"
    and "run_command sg f (cl\<lparr>bindings := fsm\<rparr>) rest = Return r cl1 rest1 out" and "r < 0"
  shows "handle_character sg cl keys =
           Return 0 (cl1\<lparr>last_command := Some f\<rparr>) rest1 (out @ [0x07])"
  using assms by (simp add: handle_character_def Let_def)

text \<open>
  C6 at the line that holds one NUL byte (typed as C-@, or C-v C-@) with the cursor behind
  it, on the key \<^verbatim>\<open>08\<close> (C-h): \<^verbatim>\<open>ll_backward_char\<close> moves the cursor from 1 to 0, then
  \<^verbatim>\<open>ll_delete_char\<close> reads the NUL as the end of the line and refuses, and
  \<^verbatim>\<open>ll_backward_delete_char\<close> returns \<open>-1\<close> without putting the cursor back. The bell rings
  once and \<^verbatim>\<open>last_command\<close> is set, but the cursor has changed.
\<close>

theorem backward_delete_char_refusal_moves_cursor:
  "cursor (typed [0x00]) = 1 \<and>
   ll_backward_delete_char (typed [0x00]) = Inr (- 1, (typed [0x00])\<lparr>cursor := 0\<rparr>) \<and>
   handle_character sg (typed [0x00]) [0x08] =
     Return 0 ((typed [0x00])\<lparr>cursor := 0, last_command := Some Backward_delete_char\<rparr>)
       [] [0x07]"
  by (simp add: typed_def fresh_default handle_character_def default_trie_def ll_fsm_feed_def
        returns_def ll_backward_delete_char_def ll_delete_char_def ll_backward_char_def
        line_def backward_char_loop.simps char_at_def pop_line_def Let_def)

subsection \<open>End of file\<close>

text \<open>
  The context after Up on a fresh line: the history entry \<open>ls\<close> is on view and the buffer
  is empty.
\<close>

definition recalled :: ll_context where
  "recalled = viewing\<lparr>buffer := []\<rparr>"

text \<open>
  C3, as the code has it. \<^verbatim>\<open>ll_end_of_file\<close> tests the line on view, \<^verbatim>\<open>cl.current\<close>, not
  the buffer: it behaves as \<^verbatim>\<open>ll_terminate\<close> exactly when that line, read as a C string,
  is empty, and as \<^verbatim>\<open>ll_delete_char\<close> otherwise. \<^verbatim>\<open>ll_terminate\<close> writes a single newline
  and ends the process.
\<close>

theorem end_of_file_tests_current:
  "(ll_end_of_file cl keys = ll_terminate cl) = (strlen (line cl) = 0) \<and>
   ll_terminate cl = Exit [0x0A] \<and>
   (strlen (line cl) \<noteq> 0 \<longrightarrow> ll_end_of_file cl keys = returns (ll_delete_char cl) keys)"
proof -
  have "returns r keys \<noteq> Exit out" for r out
    by (simp add: returns_def split: sum.splits prod.splits)
  then show ?thesis
    by (simp add: ll_end_of_file_def ll_terminate_def)
qed

theorem end_of_file_tests_current_witness:
  "strlen (line viewing) \<noteq> 0 \<and>
   ll_end_of_file viewing [] = returns (ll_delete_char viewing) [] \<and>
   ll_end_of_file viewing [] \<noteq> ll_terminate viewing \<and>
   strlen (line (fresh True)) = 0 \<and>
   ll_end_of_file (fresh True) [] = Exit [0x0A]"
proof -
  have shown: "strlen (line viewing) \<noteq> 0"
    by (simp add: viewing_def line_def strlen_def)
  have empty: "strlen (line (fresh True)) = 0"
    by (simp add: fresh_def line_def strlen_def)
  from shown end_of_file_tests_current [of viewing "[]"]
  have deletes: "ll_end_of_file viewing [] = returns (ll_delete_char viewing) [] \<and>
      ll_end_of_file viewing [] \<noteq> ll_terminate viewing"
    by auto
  from empty end_of_file_tests_current [of "fresh True" "[]"]
  have "ll_end_of_file (fresh True) [] = Exit [0x0A]"
    by metis
  with shown empty deletes show ?thesis
    by blast
qed

text \<open>
  C3, as stated, fails at \<^const>\<open>recalled\<close>: the buffer is empty, and \<^verbatim>\<open>end-of-file\<close> does not
  terminate; it is \<^verbatim>\<open>ll_delete_char\<close>, which refuses at the end of \<open>ls\<close>.
\<close>

theorem end_of_file_counterexample:
  "buffer recalled = [] \<and>
   ll_end_of_file recalled [] = Return (- 1) recalled [] [] \<and>
   ll_end_of_file recalled [] \<noteq> ll_terminate recalled"
  by (simp add: recalled_def viewing_def fresh_def ll_end_of_file_def ll_terminate_def
        returns_def ll_delete_char_def line_def strlen_def char_at_def)

subsection \<open>Kill chaining\<close>

text \<open>
  The scans of the word motions stay inside the line; a scan that starts on a byte it
  accepts moves past it, and one that starts on a byte it rejects stays.
\<close>

lemma skip_forward_stays:
  "0 \<le> c \<Longrightarrow> c \<le> int (length ln) \<Longrightarrow>
   \<exists>c1. skip_forward p ln c = Inr c1 \<and> c \<le> c1 \<and> c1 \<le> int (length ln)"
proof (induction p ln c rule: skip_forward.induct)
  case (1 p ln c)
  show ?case
  proof (cases "c = int (length ln)")
    case True
    then show ?thesis
      by (subst skip_forward.simps) (simp add: char_at_def)
  next
    case False
    with "1.prems" have in_range: "c < int (length ln)" by simp
    then have at: "char_at ln c = Inr (ln ! nat c)"
      using "1.prems" by (simp add: char_at_def)
    show ?thesis
    proof (cases "ln ! nat c \<noteq> 0 \<and> p (ln ! nat c)")
      case True
      with at "1.IH" [of "ln ! nat c"] "1.prems" in_range
      obtain c1 where "skip_forward p ln (c + 1) = Inr c1" "c + 1 \<le> c1" "c1 \<le> int (length ln)"
        by auto
      with True at show ?thesis
        by (simp add: skip_forward.simps [of p ln c])
    next
      case False
      with at "1.prems" show ?thesis
        by (auto simp: skip_forward.simps [of p ln c])
    qed
  qed
qed

lemma skip_forward_stops:
  "char_at ln c = Inr b \<Longrightarrow> \<not> (b \<noteq> 0 \<and> p b) \<Longrightarrow> skip_forward p ln c = Inr c"
  by (subst skip_forward.simps) auto

lemma skip_forward_steps:
  assumes "0 \<le> c" and "c < int (length ln)" and "ln ! nat c \<noteq> 0" and "p (ln ! nat c)"
  shows "\<exists>c1. skip_forward p ln c = Inr c1 \<and> c < c1 \<and> c1 \<le> int (length ln)"
proof -
  from assms(1,2) have at: "char_at ln c = Inr (ln ! nat c)"
    by (simp add: char_at_def)
  from assms(1,2) skip_forward_stays [of "c + 1" ln p]
  obtain c1 where "skip_forward p ln (c + 1) = Inr c1" "c + 1 \<le> c1" "c1 \<le> int (length ln)"
    by auto
  with at assms(3,4) show ?thesis
    by (simp add: skip_forward.simps [of p ln c])
qed

lemma skip_backward_stays:
  "- 1 \<le> c \<Longrightarrow> c < int (length ln) \<Longrightarrow>
   \<exists>c1. skip_backward p ln c = Inr c1 \<and> - 1 \<le> c1 \<and> c1 \<le> c"
proof (induction p ln c rule: skip_backward.induct)
  case (1 p ln c)
  show ?case
  proof (cases "0 \<le> c")
    case False
    with "1.prems" show ?thesis
      by (simp add: skip_backward.simps [of p ln c])
  next
    case True
    with "1.prems" have at: "char_at ln c = Inr (ln ! nat c)"
      by (simp add: char_at_def)
    show ?thesis
    proof (cases "p (ln ! nat c)")
      case p: True
      with True at "1.IH" [of "ln ! nat c"] "1.prems"
      obtain c1 where "skip_backward p ln (c - 1) = Inr c1" "- 1 \<le> c1" "c1 \<le> c - 1"
        by auto
      with True p at show ?thesis
        by (simp add: skip_backward.simps [of p ln c])
    next
      case False
      with True at "1.prems" show ?thesis
        by (simp add: skip_backward.simps [of p ln c])
    qed
  qed
qed

lemma skip_backward_stops:
  "0 \<le> c \<Longrightarrow> c < int (length ln) \<Longrightarrow> \<not> p (ln ! nat c) \<Longrightarrow> skip_backward p ln c = Inr c"
  by (subst skip_backward.simps) (simp add: char_at_def)

lemma skip_backward_steps:
  assumes "0 \<le> c" and "c < int (length ln)" and "p (ln ! nat c)"
  shows "\<exists>c1. skip_backward p ln c = Inr c1 \<and> - 1 \<le> c1 \<and> c1 < c"
proof -
  from assms(1,2) have at: "char_at ln c = Inr (ln ! nat c)"
    by (simp add: char_at_def)
  from assms(1,2) skip_backward_stays [of "c - 1" ln p]
  obtain c1 where "skip_backward p ln (c - 1) = Inr c1" "- 1 \<le> c1" "c1 \<le> c - 1"
    by auto
  with at assms show ?thesis
    by (simp add: skip_backward.simps [of p ln c])
qed

text \<open>
  From a byte of the line that is not NUL, \<^verbatim>\<open>ll_forward_word\<close> stays inside the line, and it
  moves the cursor unless the next byte is the NUL (then it refuses).
\<close>

lemma forward_word_moves:
  assumes "0 \<le> cursor cl" and "cursor cl < int (length (line cl))"
    and "line cl ! nat (cursor cl) \<noteq> 0"
  shows "\<exists>r c1. ll_forward_word cl = Inr (r, cl\<lparr>cursor := c1\<rparr>) \<and> cursor cl \<le> c1 \<and>
           c1 \<le> int (length (line cl)) \<and>
           (c1 = cursor cl) = (char_at (line cl) (cursor cl + 1) = Inr 0)"
proof -
  from assms have "char_at (line cl) (cursor cl + 1) =
      Inr (if cursor cl + 1 < int (length (line cl)) then line cl ! nat (cursor cl + 1) else 0)"
    by (simp add: char_at_def)
  then obtain b where b: "char_at (line cl) (cursor cl + 1) = Inr b"
    by blast
  show ?thesis
  proof (cases "b = 0")
    case True
    with b have "ll_forward_word cl = Inr (- 1, cl\<lparr>cursor := cursor cl\<rparr>)"
      by (simp add: ll_forward_word_def)
    with assms b True show ?thesis by fastforce
  next
    case False
    have "\<exists>c2. (\<exists>c1. skip_forward (\<lambda>b. \<not> isalnum b) (line cl) (cursor cl) = Inr c1 \<and>
             skip_forward isalnum (line cl) c1 = Inr c2) \<and>
           cursor cl < c2 \<and> c2 \<le> int (length (line cl))"
    proof (cases "isalnum (line cl ! nat (cursor cl))")
      case True
      from assms(1,2) have "char_at (line cl) (cursor cl) = Inr (line cl ! nat (cursor cl))"
        by (simp add: char_at_def)
      with True have "skip_forward (\<lambda>b. \<not> isalnum b) (line cl) (cursor cl) = Inr (cursor cl)"
        by (intro skip_forward_stops) auto
      with skip_forward_steps [OF assms(1,2,3), of isalnum] True show ?thesis
        by auto
    next
      case False
      with skip_forward_steps [OF assms(1,2,3), of "\<lambda>b. \<not> isalnum b"]
      obtain c1 where c1: "skip_forward (\<lambda>b. \<not> isalnum b) (line cl) (cursor cl) = Inr c1"
        "cursor cl < c1" "c1 \<le> int (length (line cl))" by auto
      with assms(1) skip_forward_stays [of c1 "line cl" isalnum]
      obtain c2 where "skip_forward isalnum (line cl) c1 = Inr c2" "c1 \<le> c2"
        "c2 \<le> int (length (line cl))" by auto
      with c1 show ?thesis by auto
    qed
    then obtain c1 c2 where c12: "skip_forward (\<lambda>b. \<not> isalnum b) (line cl) (cursor cl) = Inr c1"
      "skip_forward isalnum (line cl) c1 = Inr c2" "cursor cl < c2" "c2 \<le> int (length (line cl))"
      by blast
    with assms(1) skip_forward_stays [of c2 "line cl" "\<lambda>b. \<not> isalnum b"]
    obtain c3 where c3: "skip_forward (\<lambda>b. \<not> isalnum b) (line cl) c2 = Inr c3"
      "c2 \<le> c3" "c3 \<le> int (length (line cl))" by auto
    from False b c12 c3 have "ll_forward_word cl = Inr (0, cl\<lparr>cursor := c3\<rparr>)"
      by (simp add: ll_forward_word_def)
    with c12 c3 b False show ?thesis by fastforce
  qed
qed

text \<open>From behind a byte of the line, \<^verbatim>\<open>ll_backward_word\<close> always moves the cursor back.\<close>

lemma backward_word_moves:
  assumes "0 < cursor cl" and "cursor cl \<le> int (length (line cl))"
  shows "\<exists>r c1. ll_backward_word cl = Inr (r, cl\<lparr>cursor := c1\<rparr>) \<and> 0 \<le> c1 \<and> c1 < cursor cl"
proof -
  from assms have range: "0 \<le> cursor cl - 1" "cursor cl - 1 < int (length (line cl))"
    by simp_all
  have "\<exists>c2. (\<exists>c1. skip_backward (\<lambda>b. \<not> isalnum b) (line cl) (cursor cl - 1) = Inr c1 \<and>
           skip_backward isalnum (line cl) c1 = Inr c2) \<and> - 1 \<le> c2 \<and> c2 < cursor cl - 1"
  proof (cases "isalnum (line cl ! nat (cursor cl - 1))")
    case True
    with range have "skip_backward (\<lambda>b. \<not> isalnum b) (line cl) (cursor cl - 1) = Inr (cursor cl - 1)"
      by (intro skip_backward_stops) auto
    with skip_backward_steps [OF range, of isalnum] True show ?thesis
      by auto
  next
    case False
    with skip_backward_steps [OF range, of "\<lambda>b. \<not> isalnum b"]
    obtain c1 where c1: "skip_backward (\<lambda>b. \<not> isalnum b) (line cl) (cursor cl - 1) = Inr c1"
      "- 1 \<le> c1" "c1 < cursor cl - 1" by auto
    with range skip_backward_stays [of c1 "line cl" isalnum]
    obtain c2 where "skip_backward isalnum (line cl) c1 = Inr c2" "- 1 \<le> c2" "c2 \<le> c1"
      by auto
    with c1 show ?thesis by auto
  qed
  then obtain c1 c2 where "skip_backward (\<lambda>b. \<not> isalnum b) (line cl) (cursor cl - 1) = Inr c1"
    "skip_backward isalnum (line cl) c1 = Inr c2" "- 1 \<le> c2" "c2 < cursor cl - 1"
    by blast
  with assms have "ll_backward_word cl = Inr (0, cl\<lparr>cursor := c2 + 1\<rparr>) \<and> 0 \<le> c2 + 1 \<and>
      c2 + 1 < cursor cl"
    by (simp add: ll_backward_word_def)
  then show ?thesis by blast
qed


text \<open>The bytes of a line from offset \<open>a\<close> up to, not including, offset \<open>b\<close>.\<close>

definition between :: "byte list \<Rightarrow> int \<Rightarrow> int \<Rightarrow> byte list" where
  "between ln a b = take (nat (b - a)) (drop (nat a) ln)"

text \<open>
  Where the word motions put the cursor, started on the buffer as \<^verbatim>\<open>pop_line\<close> leaves it: the
  far end of the span that a word kill takes.
\<close>

definition forward_word_end :: "ll_context \<Rightarrow> int" where
  "forward_word_end cl =
     (case ll_forward_word (snd (pop_line cl)) of Inl e \<Rightarrow> cursor cl | Inr (r, cl1) \<Rightarrow> cursor cl1)"

definition backward_word_start :: "ll_context \<Rightarrow> int" where
  "backward_word_start cl =
     (case ll_backward_word (snd (pop_line cl)) of Inl e \<Rightarrow> cursor cl | Inr (r, cl1) \<Rightarrow> cursor cl1)"

lemma popped_context:
  "(snd (pop_line cl))\<lparr>current := BufferStr\<rparr> = snd (pop_line cl)"
  "(snd (pop_line cl))\<lparr>cursor := cursor cl\<rparr> = snd (pop_line cl)"
  "buffer (snd (pop_line cl)) = edited cl"
  by (simp_all add: pop_line_def edited_def)

lemma kill_spans:
  assumes "0 \<le> a" and "a \<le> b" and "b \<le> int (length old)"
  shows "span old a (b - a) = Inr (between old a b)"
    and "ll_buf_erase old a (b - a) = Inr (take (nat a) old @ drop (nat b) old)"
  using assms by (auto simp: span_def ll_buf_erase_def between_def)

lemma inside_edited:
  assumes "0 \<le> cursor cl" and "cursor cl < int (strlen (line cl))"
  shows "cursor cl < int (length (edited cl))"
    and "edited cl ! nat (cursor cl) \<noteq> 0"
    and "\<exists>b. char_at (line cl) (cursor cl) = Inr b \<and> b \<noteq> 0"
proof -
  from assms(2) strlen_le_length [of "edited cl"] show "cursor cl < int (length (edited cl))"
    by (simp add: pop_line_fields(6) [symmetric])
  from in_line [OF assms] show "\<exists>b. char_at (line cl) (cursor cl) = Inr b \<and> b \<noteq> 0"
    by blast
  from in_line [OF assms] assms show "edited cl ! nat (cursor cl) \<noteq> 0"
    by (simp add: edited_nth)
qed

lemma within_edited:
  assumes "cursor cl \<le> int (strlen (line cl))"
  shows "cursor cl \<le> int (length (edited cl))"
  using assms strlen_le_length [of "edited cl"]
  by (simp add: pop_line_fields(6) [symmetric])

lemma forward_word_end_bounds:
  assumes "0 \<le> cursor cl" and "cursor cl < int (strlen (line cl))"
  shows "\<exists>r. ll_forward_word (snd (pop_line cl)) =
           Inr (r, (snd (pop_line cl))\<lparr>cursor := forward_word_end cl\<rparr>)"
    and "cursor cl \<le> forward_word_end cl" and "forward_word_end cl \<le> int (length (edited cl))"
    and "(forward_word_end cl = cursor cl) = (char_at (edited cl) (cursor cl + 1) = Inr 0)"
proof -
  define cl0 where "cl0 = snd (pop_line cl)"
  have cl0: "line cl0 = edited cl" "cursor cl0 = cursor cl"
    by (simp_all add: cl0_def pop_line_fields)
  from inside_edited [OF assms] assms(1) forward_word_moves [of cl0]
  obtain r c1 where fw: "ll_forward_word cl0 = Inr (r, cl0\<lparr>cursor := c1\<rparr>)"
    and c1: "cursor cl \<le> c1" "c1 \<le> int (length (edited cl))"
      "(c1 = cursor cl) = (char_at (edited cl) (cursor cl + 1) = Inr 0)"
    by (auto simp: cl0)
  from fw have e: "forward_word_end cl = c1"
    by (simp add: forward_word_end_def cl0_def [symmetric])
  from fw show "\<exists>r. ll_forward_word (snd (pop_line cl)) =
           Inr (r, (snd (pop_line cl))\<lparr>cursor := forward_word_end cl\<rparr>)"
    unfolding e cl0_def by blast
  from c1 show "cursor cl \<le> forward_word_end cl" "forward_word_end cl \<le> int (length (edited cl))"
    "(forward_word_end cl = cursor cl) = (char_at (edited cl) (cursor cl + 1) = Inr 0)"
    unfolding e by simp_all
qed

lemma backward_word_start_bounds:
  assumes "0 < cursor cl" and "cursor cl \<le> int (strlen (line cl))"
  shows "\<exists>r. ll_backward_word (snd (pop_line cl)) =
           Inr (r, (snd (pop_line cl))\<lparr>cursor := backward_word_start cl\<rparr>)"
    and "0 \<le> backward_word_start cl" and "backward_word_start cl < cursor cl"
proof -
  define cl0 where "cl0 = snd (pop_line cl)"
  have cl0: "line cl0 = edited cl" "cursor cl0 = cursor cl"
    by (simp_all add: cl0_def pop_line_fields)
  from within_edited [OF assms(2)] assms(1) backward_word_moves [of cl0]
  obtain r c1 where bw: "ll_backward_word cl0 = Inr (r, cl0\<lparr>cursor := c1\<rparr>)"
    and c1: "0 \<le> c1" "c1 < cursor cl"
    by (auto simp: cl0)
  from bw have e: "backward_word_start cl = c1"
    by (simp add: backward_word_start_def cl0_def [symmetric])
  from bw show "\<exists>r. ll_backward_word (snd (pop_line cl)) =
           Inr (r, (snd (pop_line cl))\<lparr>cursor := backward_word_start cl\<rparr>)"
    unfolding e cl0_def by blast
  from c1 show "0 \<le> backward_word_start cl" "backward_word_start cl < cursor cl"
    unfolding e by simp_all
qed

lemma forward_kill_word_kills:
  assumes "0 \<le> cursor cl" and "cursor cl < int (strlen (line cl))"
  shows "ll_forward_kill_word cl =
     Inr (0, (snd (pop_line cl))
        \<lparr>clipboard :=
           (if last_command cl = Some Forward_kill_word
            then clipboard cl @ between (edited cl) (cursor cl) (forward_word_end cl)
            else between (edited cl) (cursor cl) (forward_word_end cl)),
         buffer := take (nat (cursor cl)) (edited cl) @
                   drop (nat (forward_word_end cl)) (edited cl)\<rparr>)"
proof -
  from inside_edited(3) [OF assms] obtain b
    where b: "char_at (line cl) (cursor cl) = Inr b" "b \<noteq> 0"
    by blast
  from forward_word_end_bounds(1) [OF assms] obtain r
    where fw: "ll_forward_word (snd (pop_line cl)) =
      Inr (r, (snd (pop_line cl))\<lparr>cursor := forward_word_end cl\<rparr>)"
    by blast
  note sp = kill_spans [OF assms(1) forward_word_end_bounds(2,3) [OF assms]]
  show ?thesis
    by (simp add: ll_forward_kill_word_def b Let_def fw pop_line_fields popped_context sp
          ll_buf_append_def ll_buf_assign_def)
qed

lemma forward_kill_line_kills:
  assumes "0 \<le> cursor cl" and "cursor cl < int (strlen (line cl))"
  shows "ll_forward_kill_line cl =
     Inr (0, (snd (pop_line cl))
        \<lparr>clipboard :=
           (if last_command cl = Some Forward_kill_word
            then clipboard cl @ drop (nat (cursor cl)) (edited cl)
            else drop (nat (cursor cl)) (edited cl)),
         buffer := take (nat (cursor cl)) (edited cl)\<rparr>)"
proof -
  from inside_edited [OF assms] obtain b
    where inside: "cursor cl < int (length (edited cl))"
      and b: "char_at (line cl) (cursor cl) = Inr b" "b \<noteq> 0"
    by blast
  from inside have le: "cursor cl \<le> int (length (edited cl))"
    "int (length (edited cl)) \<le> int (length (edited cl))"
    by simp_all
  note sp = kill_spans [OF assms(1) le]
  show ?thesis
    by (simp add: ll_forward_kill_line_def b Let_def pop_line_fields popped_context sp
          ll_buf_append_def ll_buf_assign_def between_def)
qed

lemma backward_kill_word_kills:
  assumes "0 < cursor cl" and "cursor cl \<le> int (strlen (line cl))"
  shows "ll_backward_kill_word cl =
     Inr (0, (snd (pop_line cl))
        \<lparr>cursor := backward_word_start cl,
         clipboard :=
           (if last_command cl = Some Backward_kill_word
            then between (edited cl) (backward_word_start cl) (cursor cl) @ clipboard cl
            else between (edited cl) (backward_word_start cl) (cursor cl)),
         buffer := take (nat (backward_word_start cl)) (edited cl) @
                   drop (nat (cursor cl)) (edited cl)\<rparr>)"
proof -
  from backward_word_start_bounds [OF assms] obtain r
    where bw: "ll_backward_word (snd (pop_line cl)) =
      Inr (r, (snd (pop_line cl))\<lparr>cursor := backward_word_start cl\<rparr>)"
      and s: "0 \<le> backward_word_start cl" "backward_word_start cl \<le> cursor cl"
    by force
  note sp = kill_spans [OF s within_edited [OF assms(2)]]
  from assms(1) show ?thesis
    by (simp add: ll_backward_kill_word_def Let_def bw pop_line_fields popped_context sp
          ll_buf_prepend_def ll_buf_assign_def)
qed

lemma backward_kill_line_kills:
  assumes "0 < cursor cl" and "cursor cl \<le> int (strlen (line cl))"
  shows "ll_backward_kill_line cl =
     Inr (0, (snd (pop_line cl))
        \<lparr>cursor := 0,
         clipboard :=
           (if last_command cl = Some Backward_kill_word
            then take (nat (cursor cl)) (edited cl) @ clipboard cl
            else take (nat (cursor cl)) (edited cl)),
         buffer := drop (nat (cursor cl)) (edited cl)\<rparr>)"
proof -
  have z: "(0::int) \<le> 0" "0 \<le> cursor cl"
    using assms(1) by simp_all
  note sp = kill_spans [OF z within_edited [OF assms(2)]]
  from assms(1) sp show ?thesis
    by (simp add: ll_backward_kill_line_def Let_def pop_line_fields popped_context
          ll_buf_prepend_def ll_buf_assign_def between_def)
qed


text \<open>
  The context in which the loop of \<^verbatim>\<open>ll_read\<close> waits for its next key once the keys \<open>keys\<close>
  are used up: the loop as in \<^const>\<open>read_loop\<close>, observed when it has drawn the line and
  \<^verbatim>\<open>keyboard_get\<close> finds no key. There is no such context when the loop has ended before,
  or when the keys end inside a key sequence.
\<close>

function waiting :: "bool \<Rightarrow> ll_context \<Rightarrow> byte list \<Rightarrow> ll_context option" where
  "waiting sg cl keys =
     (case reprint_line sg cl of
        (cl1, out1) \<Rightarrow>
          if keys = [] then Some cl1
          else (case handle_character sg cl1 keys of
                  Return retval cl2 rest out2 \<Rightarrow>
                    if retval = 0 then waiting sg cl2 rest else None
                | other \<Rightarrow> None))"
  by pat_completeness auto
termination
  by (relation "measure (\<lambda>(sg, cl, keys). length keys)")
     (auto dest: handle_character_consumes)

declare waiting.simps [simp del]

text \<open>
  The default bindings with M-d (\<^verbatim>\<open>1B 64\<close>) bound to \<^verbatim>\<open>forward-kill-word\<close>, which the default
  table leaves unbound, and the trie that \<^const>\<open>ll_fsm_init\<close> builds from them.
\<close>

definition meta_d_bindings :: "(byte list \<times> command) list" where
  "meta_d_bindings = LL_ANSI_KEY_BINDINGS @ [([0x1B, 0x64], Forward_kill_word)]"

definition meta_d_trie :: trie where
  "meta_d_trie = Node None
    [(0x01, Node (Some Beginning_of_line) []), (0x02, Node (Some Backward_char) []),
     (0x03, Node (Some Terminate) []), (0x04, Node (Some End_of_file) []),
     (0x05, Node (Some End_of_line) []), (0x06, Node (Some Forward_char) []),
     (0x08, Node (Some Backward_delete_char) []), (0x0A, Node (Some Accept_line) []),
     (0x0B, Node (Some Forward_kill_line) []), (0x0E, Node (Some Next_history) []),
     (0x10, Node (Some Previous_history) []), (0x15, Node (Some Backward_kill_line) []),
     (0x16, Node (Some Verbatim) []), (0x17, Node (Some Backward_kill_word) []),
     (0x19, Node (Some Yank) []),
     (0x1B, Node None
       [(0x62, Node (Some Backward_word) []), (0x66, Node (Some Forward_word) []),
        (0x5B, Node None
          [(0x41, Node (Some Previous_history) []), (0x42, Node (Some Next_history) []),
           (0x43, Node (Some Forward_char) []), (0x44, Node (Some Backward_char) []),
           (0x33, Node None [(0x7E, Node (Some Delete_char) [])]),
           (0x37, Node None [(0x7E, Node (Some Beginning_of_line) [])]),
           (0x38, Node None [(0x7E, Node (Some End_of_line) [])])]),
        (0x64, Node (Some Forward_kill_word) [])]),
     (0x7F, Node (Some Backward_delete_char) [])]"

definition fresh_meta_d :: ll_context where
  "fresh_meta_d = (fresh False)\<lparr>bindings := ll_fsm_init False meta_d_bindings\<rparr>"

text \<open>
  The context after \<open>foo bar\<close> and C-w were typed under the default bindings: \<open>bar\<close> is on the
  clipboard and \<open>foo \<close> is left, with the cursor behind it.
\<close>

definition after_C_w :: ll_context where
  "after_C_w =
     (fresh False)\<lparr>buffer := [0x66, 0x6F, 0x6F, 0x20], cursor := 4,
                    clipboard := [0x62, 0x61, 0x72],
                    last_command := Some Backward_kill_word, fmt_cursor := 4, fmt_len := 4\<rparr>"

text \<open>
  The context after \<open>ab cd ef\<close>, C-a and M-d were typed under the bindings with M-d: \<open>ab \<close> is
  on the clipboard and \<open>cd ef\<close> is left, with the cursor on \<open>c\<close>.
\<close>

definition after_M_d :: ll_context where
  "after_M_d =
     fresh_meta_d\<lparr>buffer := [0x63, 0x64, 0x20, 0x65, 0x66], cursor := 0,
                   clipboard := [0x61, 0x62, 0x20],
                   last_command := Some Forward_kill_word, fmt_cursor := 0, fmt_len := 5\<rparr>"

lemma meta_d_fsm:
  "ll_fsm_init w meta_d_bindings = \<lparr>root = meta_d_trie, node = meta_d_trie, waits = w\<rparr>"
proof -
  have "fold (\<lambda>(seq, f). trie_insert seq f) meta_d_bindings (Node None []) = meta_d_trie"
    unfolding meta_d_bindings_def LL_ANSI_KEY_BINDINGS_def meta_d_trie_def
    by simp
  then show ?thesis
    by (simp only: ll_fsm_init_def Let_def)
qed

lemmas run_simps =
  waiting.simps reprint_line_def reprint_loop.simps reprint_char_def size_t_def strlen_def
  line_def handle_character_def ll_fsm_feed_def returns_def insert_str_def pop_line_def
  ll_buf_insert_def ll_buf_erase_def ll_buf_assign_def ll_buf_append_def ll_buf_prepend_def
  span_def char_at_def isalnum_def Let_def

lemma reaches_after_C_w:
  "waiting sg (fresh False) [0x66, 0x6F, 0x6F, 0x20, 0x62, 0x61, 0x72, 0x17] = Some after_C_w"
  by (simp add: after_C_w_def fresh_default default_trie_def run_simps
        ll_backward_kill_word_def ll_backward_word_def skip_backward.simps)

lemma reaches_after_M_d:
  "waiting sg fresh_meta_d [0x61, 0x62, 0x20, 0x63, 0x64, 0x20, 0x65, 0x66, 0x01, 0x1B, 0x64] =
     Some after_M_d"
  by (simp add: after_M_d_def fresh_meta_d_def fresh_def meta_d_fsm meta_d_trie_def run_simps
        ll_beginning_of_line_def ll_forward_kill_word_def ll_forward_word_def skip_forward.simps)


text \<open>
  C1, as the code has it. With the cursor before the end of the line, \<^verbatim>\<open>forward-kill-word\<close>
  and \<^verbatim>\<open>forward-kill-line\<close> both append the killed text to the clipboard when the previous
  command was \<^verbatim>\<open>forward-kill-word\<close> and replace the clipboard by it otherwise; with the
  cursor behind the start of the line, \<^verbatim>\<open>backward-kill-word\<close> and \<^verbatim>\<open>backward-kill-line\<close> both
  prepend it when the previous command was \<^verbatim>\<open>backward-kill-word\<close> and replace otherwise.
  The killed text of a word kill is the span between the cursor and the place where the
  word motion of its direction puts it: never empty backward, and empty forward only with
  the cursor on the last byte, where \<^verbatim>\<open>ll_forward_word\<close> refuses. The killed text of a line
  kill is the line from the cursor to its end, or from its start to the cursor. Each
  command returns 0 with the context given here, the killed text gone from the buffer.
\<close>

theorem kill_chaining:
  "(0 \<le> cursor cl \<and> cursor cl < int (strlen (line cl)) \<longrightarrow>
      ll_forward_kill_word cl =
        Inr (0, (snd (pop_line cl))
           \<lparr>clipboard :=
              (if last_command cl = Some Forward_kill_word
               then clipboard cl @ between (edited cl) (cursor cl) (forward_word_end cl)
               else between (edited cl) (cursor cl) (forward_word_end cl)),
            buffer := take (nat (cursor cl)) (edited cl) @
                      drop (nat (forward_word_end cl)) (edited cl)\<rparr>) \<and>
      cursor cl \<le> forward_word_end cl \<and> forward_word_end cl \<le> int (length (edited cl)) \<and>
      (forward_word_end cl = cursor cl) = (char_at (edited cl) (cursor cl + 1) = Inr 0) \<and>
      ll_forward_kill_line cl =
        Inr (0, (snd (pop_line cl))
           \<lparr>clipboard :=
              (if last_command cl = Some Forward_kill_word
               then clipboard cl @ drop (nat (cursor cl)) (edited cl)
               else drop (nat (cursor cl)) (edited cl)),
            buffer := take (nat (cursor cl)) (edited cl)\<rparr>)) \<and>
   (0 < cursor cl \<and> cursor cl \<le> int (strlen (line cl)) \<longrightarrow>
      ll_backward_kill_word cl =
        Inr (0, (snd (pop_line cl))
           \<lparr>cursor := backward_word_start cl,
            clipboard :=
              (if last_command cl = Some Backward_kill_word
               then between (edited cl) (backward_word_start cl) (cursor cl) @ clipboard cl
               else between (edited cl) (backward_word_start cl) (cursor cl)),
            buffer := take (nat (backward_word_start cl)) (edited cl) @
                      drop (nat (cursor cl)) (edited cl)\<rparr>) \<and>
      0 \<le> backward_word_start cl \<and> backward_word_start cl < cursor cl \<and>
      ll_backward_kill_line cl =
        Inr (0, (snd (pop_line cl))
           \<lparr>cursor := 0,
            clipboard :=
              (if last_command cl = Some Backward_kill_word
               then take (nat (cursor cl)) (edited cl) @ clipboard cl
               else take (nat (cursor cl)) (edited cl)),
            buffer := drop (nat (cursor cl)) (edited cl)\<rparr>))"
  using forward_kill_word_kills [of cl] forward_kill_line_kills [of cl]
    forward_word_end_bounds(2,3,4) [of cl]
    backward_kill_word_kills [of cl] backward_kill_line_kills [of cl]
    backward_word_start_bounds(2,3) [of cl]
  by blast

lemma after_M_d_word_end: "forward_word_end after_M_d = 3"
  by (simp add: forward_word_end_def after_M_d_def fresh_meta_d_def fresh_def pop_line_def
        ll_forward_word_def skip_forward.simps line_def char_at_def isalnum_def)

lemma after_C_w_word_start: "backward_word_start after_C_w = 0"
  by (simp add: backward_word_start_def after_C_w_def fresh_def pop_line_def
        ll_backward_word_def skip_backward.simps line_def char_at_def isalnum_def)

text \<open>
  Both directions chained, at the two contexts above: after M-d, another M-d makes the
  clipboard \<open>ab cd \<close> and C-k makes it \<open>ab cd ef\<close>; after C-w, both another C-w and C-u
  make it \<open>foo bar\<close>.
\<close>

theorem kill_chaining_witness:
  "0 \<le> cursor after_M_d \<and> cursor after_M_d < int (strlen (line after_M_d)) \<and>
   last_command after_M_d = Some Forward_kill_word \<and> clipboard after_M_d = [0x61, 0x62, 0x20] \<and>
   ll_forward_kill_word after_M_d =
     Inr (0, after_M_d\<lparr>clipboard := [0x61, 0x62, 0x20, 0x63, 0x64, 0x20],
                        buffer := [0x65, 0x66]\<rparr>) \<and>
   ll_forward_kill_line after_M_d =
     Inr (0, after_M_d\<lparr>clipboard := [0x61, 0x62, 0x20, 0x63, 0x64, 0x20, 0x65, 0x66],
                        buffer := []\<rparr>) \<and>
   0 < cursor after_C_w \<and> cursor after_C_w \<le> int (strlen (line after_C_w)) \<and>
   last_command after_C_w = Some Backward_kill_word \<and> clipboard after_C_w = [0x62, 0x61, 0x72] \<and>
   ll_backward_kill_word after_C_w =
     Inr (0, after_C_w\<lparr>cursor := 0, clipboard := [0x66, 0x6F, 0x6F, 0x20, 0x62, 0x61, 0x72],
                        buffer := []\<rparr>) \<and>
   ll_backward_kill_line after_C_w =
     Inr (0, after_C_w\<lparr>cursor := 0, clipboard := [0x66, 0x6F, 0x6F, 0x20, 0x62, 0x61, 0x72],
                        buffer := []\<rparr>)"
proof -
  have fwd: "0 \<le> cursor after_M_d \<and> cursor after_M_d < int (strlen (line after_M_d))"
    by (simp add: after_M_d_def fresh_meta_d_def fresh_def line_def strlen_def)
  have bwd: "0 < cursor after_C_w \<and> cursor after_C_w \<le> int (strlen (line after_C_w))"
    by (simp add: after_C_w_def fresh_def line_def strlen_def)
  have M_d: "snd (pop_line after_M_d) = after_M_d" "edited after_M_d = [0x63, 0x64, 0x20, 0x65, 0x66]"
    "cursor after_M_d = 0" "last_command after_M_d = Some Forward_kill_word"
    "clipboard after_M_d = [0x61, 0x62, 0x20]"
    by (simp_all add: after_M_d_def fresh_meta_d_def fresh_def pop_line_def edited_def)
  have C_w: "snd (pop_line after_C_w) = after_C_w" "edited after_C_w = [0x66, 0x6F, 0x6F, 0x20]"
    "cursor after_C_w = 4" "last_command after_C_w = Some Backward_kill_word"
    "clipboard after_C_w = [0x62, 0x61, 0x72]"
    by (simp_all add: after_C_w_def fresh_def pop_line_def edited_def)
  from fwd kill_chaining [of after_M_d]
  have "ll_forward_kill_word after_M_d =
     Inr (0, after_M_d\<lparr>clipboard := [0x61, 0x62, 0x20, 0x63, 0x64, 0x20],
                        buffer := [0x65, 0x66]\<rparr>) \<and>
   ll_forward_kill_line after_M_d =
     Inr (0, after_M_d\<lparr>clipboard := [0x61, 0x62, 0x20, 0x63, 0x64, 0x20, 0x65, 0x66],
                        buffer := []\<rparr>)"
    by (simp add: M_d after_M_d_word_end between_def)
  moreover from bwd kill_chaining [of after_C_w]
  have "ll_backward_kill_word after_C_w =
     Inr (0, after_C_w\<lparr>cursor := 0, clipboard := [0x66, 0x6F, 0x6F, 0x20, 0x62, 0x61, 0x72],
                        buffer := []\<rparr>) \<and>
   ll_backward_kill_line after_C_w =
     Inr (0, after_C_w\<lparr>cursor := 0, clipboard := [0x66, 0x6F, 0x6F, 0x20, 0x62, 0x61, 0x72],
                        buffer := []\<rparr>)"
    by (simp add: C_w after_C_w_word_start between_def)
  ultimately show ?thesis
    using fwd bwd M_d(4,5) C_w(4,5) by simp
qed

text \<open>
  C1, as stated, fails on the keys \<open>foo bar\<close>, C-w, C-u under the default bindings: C-u
  (\<^verbatim>\<open>backward-kill-line\<close>) kills \<open>foo \<close> and leaves \<open>foo bar\<close> on the clipboard, not \<open>foo \<close>.
\<close>

theorem line_kill_chains_counterexample:
  "waiting False (fresh False) [0x66, 0x6F, 0x6F, 0x20, 0x62, 0x61, 0x72, 0x17] = Some after_C_w \<and>
   buffer after_C_w = [0x66, 0x6F, 0x6F, 0x20] \<and> cursor after_C_w = 4 \<and>
   clipboard after_C_w = [0x62, 0x61, 0x72] \<and>
   handle_character False after_C_w [0x15] =
     Return 0 (after_C_w\<lparr>cursor := 0, clipboard := [0x66, 0x6F, 0x6F, 0x20, 0x62, 0x61, 0x72],
                          buffer := [], last_command := Some Backward_kill_line\<rparr>) [] [] \<and>
   [0x66, 0x6F, 0x6F, 0x20, 0x62, 0x61, 0x72] \<noteq> [0x66, 0x6F, 0x6F, 0x20 :: byte]"
proof -
  have "handle_character False after_C_w [0x15] =
     Return 0 (after_C_w\<lparr>cursor := 0, clipboard := [0x66, 0x6F, 0x6F, 0x20, 0x62, 0x61, 0x72],
                          buffer := [], last_command := Some Backward_kill_line\<rparr>) [] []"
    by (simp add: after_C_w_def fresh_default default_trie_def handle_character_def
          ll_fsm_feed_def returns_def ll_backward_kill_line_def pop_line_def span_def
          ll_buf_erase_def ll_buf_prepend_def Let_def)
  moreover have "buffer after_C_w = [0x66, 0x6F, 0x6F, 0x20] \<and> cursor after_C_w = 4 \<and>
      clipboard after_C_w = [0x62, 0x61, 0x72]"
    by (simp add: after_C_w_def)
  ultimately show ?thesis
    using reaches_after_C_w [of False] by simp
qed

subsection \<open>The boundary scenarios of the specification\<close>

text \<open>
  The model run on the scenarios that the specification lists, with the default bindings.
  On the empty line C-d ends the process after a newline, and C-b is refused with a bell.
\<close>

lemma end_of_file_on_empty_line: "handle_character sg (fresh w) [0x04] = Exit [0x0A]"
  by (simp add: fresh_default handle_character_def default_trie_def ll_fsm_feed_def
        ll_end_of_file_def ll_terminate_def line_def strlen_def Let_def)

lemma backward_char_on_empty_line:
  "handle_character sg (fresh w) [0x02] =
     Return 0 ((fresh w)\<lparr>last_command := Some Backward_char\<rparr>) [] [0x07]"
  by (simp add: fresh_default handle_character_def default_trie_def ll_fsm_feed_def
        returns_def ll_backward_char_def Let_def)

text \<open>Three \<^verbatim>\<open>forward-char\<close> over \<^verbatim>\<open>68 C3 A9 6C 6C 6F\<close> from 0 end at 4.\<close>

definition hello :: ll_context where
  "hello = (fresh False)\<lparr>buffer := [0x68, 0xC3, 0xA9, 0x6C, 0x6C, 0x6F]\<rparr>"

lemma forward_char_by_codepoint:
  "ll_forward_char hello = Inr (0, hello\<lparr>cursor := 1\<rparr>) \<and>
   ll_forward_char (hello\<lparr>cursor := 1\<rparr>) = Inr (0, hello\<lparr>cursor := 3\<rparr>) \<and>
   ll_forward_char (hello\<lparr>cursor := 3\<rparr>) = Inr (0, hello\<lparr>cursor := 4\<rparr>)"
  by (simp add: hello_def fresh_def ll_forward_char_def forward_char_loop.simps char_at_def
        line_def)

text \<open>
  Two C-w at the end of \<open>foo bar baz\<close>: first \<open>baz\<close> goes to the clipboard, then \<open>bar \<close> is
  put before it.
\<close>

definition foo_bar_baz :: ll_context where
  "foo_bar_baz = typed [0x66, 0x6F, 0x6F, 0x20, 0x62, 0x61, 0x72, 0x20, 0x62, 0x61, 0x7A]"

lemma backward_kill_word_once:
  "handle_character sg foo_bar_baz [0x17] =
     Return 0 (foo_bar_baz\<lparr>buffer := [0x66, 0x6F, 0x6F, 0x20, 0x62, 0x61, 0x72, 0x20],
        clipboard := [0x62, 0x61, 0x7A], cursor := 8,
        last_command := Some Backward_kill_word\<rparr>) [] []"
  by (simp add: foo_bar_baz_def typed_def fresh_default handle_character_def default_trie_def
        ll_fsm_feed_def returns_def ll_backward_kill_word_def ll_backward_word_def
        skip_backward.simps isalnum_def pop_line_def line_def char_at_def span_def
        ll_buf_erase_def ll_buf_assign_def ll_buf_prepend_def Let_def)

lemma backward_kill_word_twice:
  "handle_character sg
     (foo_bar_baz\<lparr>buffer := [0x66, 0x6F, 0x6F, 0x20, 0x62, 0x61, 0x72, 0x20],
        clipboard := [0x62, 0x61, 0x7A], cursor := 8,
        last_command := Some Backward_kill_word\<rparr>) [0x17] =
     Return 0 (foo_bar_baz\<lparr>buffer := [0x66, 0x6F, 0x6F, 0x20],
        clipboard := [0x62, 0x61, 0x72, 0x20, 0x62, 0x61, 0x7A], cursor := 4,
        last_command := Some Backward_kill_word\<rparr>) [] []"
  by (simp add: foo_bar_baz_def typed_def fresh_default handle_character_def default_trie_def
        ll_fsm_feed_def returns_def ll_backward_kill_word_def ll_backward_word_def
        skip_backward.simps isalnum_def pop_line_def line_def char_at_def span_def
        ll_buf_erase_def ll_buf_assign_def ll_buf_prepend_def Let_def)

text \<open>Up is \<^verbatim>\<open>1B 5B 41\<close>; the unbound tail \<^verbatim>\<open>51\<close> gives NONE with the three bytes stored.\<close>

lemma up_key_window:
  "read_keys (ll_fsm_init w LL_ANSI_KEY_BINDINGS) [] [0x1B, 0x5B, 0x41] =
     Keys (LL_FSM_FINAL_STATE Previous_history) (ll_fsm_init w LL_ANSI_KEY_BINDINGS)
       [0x1B, 0x5B, 0x41] []"
  by (simp add: default_fsm default_trie_def ll_fsm_feed_def)

lemma unknown_tail_window:
  "read_keys (ll_fsm_init w LL_ANSI_KEY_BINDINGS) [] [0x1B, 0x5B, 0x51] =
     Keys LL_FSM_NONE (ll_fsm_init w LL_ANSI_KEY_BINDINGS) [0x1B, 0x5B, 0x51] []"
  by (simp add: default_fsm default_trie_def ll_fsm_feed_def)

end
